theory Spec2Isabelle
  imports Complex_Main "HOL-Library.Word"
begin

section \<open>FinPull: shallow embedding of the realtime ingest core\<close>

text \<open>
  Conventions used throughout.
  \<^item> Go's \<^verbatim>\<open>time.Time\<close> readings and \<^verbatim>\<open>time.Duration\<close> values are integers counting
    nanoseconds; a function that calls \<^verbatim>\<open>time.Now()\<close> takes the reading as the argument \<open>now\<close>.
  \<^item> Go's \<^verbatim>\<open>float64\<close> is idealised as \<open>real\<close>: rounding, infinities and NaN inputs are
    outside the model. Where the source can produce NaN from finite inputs the model says so.
  \<^item> A call into user code (handler, hook) either returns or panics: \<open>'a call\<close>.
\<close>

type_synonym time = int
type_synonym duration = int
type_synonym bytes = string

subsection \<open>In-memory cache (package cache)\<close>

text \<open>Values stored behind Go's \<^verbatim>\<open>interface{}\<close>: a string, an int64, or anything else.\<close>

datatype val = VString string | VInt64 int | VOther nat

record MemoryItem =
  Value :: val
  ExpireAt :: time

definition IsExpired :: "MemoryItem \<Rightarrow> time \<Rightarrow> bool" where
  "IsExpired m now = (now > ExpireAt m)"

record MemoryCache =
  data :: "string \<rightharpoonup> MemoryItem"
  access :: "string \<rightharpoonup> time"
  maxSize :: int

datatype cache_error = ErrCacheMiss

text \<open>The dynamic type of the \<^verbatim>\<open>dest\<close> argument of \<^verbatim>\<open>Get\<close>: \<^verbatim>\<open>*string\<close>, \<^verbatim>\<open>*interface{}\<close>, or another
  pointer type, on which the final type assertion panics.\<close>

datatype dest = DestString | DestIface | DestOther

datatype get_result = GetErr cache_error | GetOk val | GetPanic

definition Get :: "MemoryCache \<Rightarrow> time \<Rightarrow> string \<Rightarrow> dest \<Rightarrow> get_result \<times> MemoryCache" where
  "Get mc now key d =
     (case data mc key of
        None \<Rightarrow> (GetErr ErrCacheMiss, mc)
      | Some item \<Rightarrow>
          if IsExpired item now
          then (GetErr ErrCacheMiss,
                mc\<lparr>data := (data mc)(key := None), access := (access mc)(key := None)\<rparr>)
          else
            (let mc' = mc\<lparr>access := (access mc)(key \<mapsto> now)\<rparr> in
             case (d, Value item) of
               (DestString, VString s) \<Rightarrow> (GetOk (VString s), mc')
             | (DestIface, v) \<Rightarrow> (GetOk v, mc')
             | _ \<Rightarrow> (GetPanic, mc')))"

text \<open>\<^verbatim>\<open>DeleteByPattern\<close> ignores its pattern argument, replaces both maps by fresh empty
  ones and returns nil (\<open>None\<close>).\<close>

definition DeleteByPattern :: "MemoryCache \<Rightarrow> string \<Rightarrow> cache_error option \<times> MemoryCache" where
  "DeleteByPattern mc pattern = (None, mc\<lparr>data := Map.empty, access := Map.empty\<rparr>)"

definition Set_cache_example :: MemoryCache where
  "Set_cache_example =
     \<lparr>data = [''regime:BTC:1m'' \<mapsto> \<lparr>Value = VString ''x'', ExpireAt = 100\<rparr>],
      access = [''regime:BTC:1m'' \<mapsto> 1], maxSize = 1000\<rparr>"

subsection \<open>Feature extraction (package features)\<close>

record Candle =
  Bucket :: time
  Symbol :: string
  Open :: real
  High :: real
  Low :: real
  Close :: real
  Volume :: real
  OrgID :: string

text \<open>The loop \<^verbatim>\<open>for i := 1; i < len(candles); i++\<close> with its accumulator \<^verbatim>\<open>out\<close>.\<close>

function ComputeLogReturns_loop :: "Candle list \<Rightarrow> nat \<Rightarrow> real list \<Rightarrow> real list" where
  "ComputeLogReturns_loop candles i out =
     (if i < length candles
      then (let prev = Close (candles ! (i - 1)); cur = Close (candles ! i) in
            if prev \<le> 0 \<or> cur \<le> 0
            then ComputeLogReturns_loop candles (i + 1) (out @ [0])
            else ComputeLogReturns_loop candles (i + 1) (out @ [ln (cur / prev)]))
      else out)"
  by pat_completeness auto
termination
  by (relation "measure (\<lambda>(candles, i, out). length candles - i)") auto

declare ComputeLogReturns_loop.simps [simp del]

text \<open>Go returns the nil slice for fewer than two candles; nil and the empty slice are both
  \<open>[]\<close> here.\<close>

definition ComputeLogReturns :: "Candle list \<Rightarrow> real list" where
  "ComputeLogReturns candles =
     (if length candles < 2 then [] else ComputeLogReturns_loop candles 1 [])"

text \<open>\<^verbatim>\<open>math.Sqrt\<close> of a negative number is NaN (HOL's \<open>sqrt\<close> is not), so the result type of
  \<^verbatim>\<open>RealizedVolatility\<close> keeps NaN apart.\<close>

datatype float64 = Finite real | NaN

definition go_sqrt :: "real \<Rightarrow> float64" where
  "go_sqrt x = (if x < 0 then NaN else Finite (sqrt x))"

text \<open>The loop \<^verbatim>\<open>for i := len(logReturns) - window; i < len(logReturns); i++\<close>; \<open>sum1\<close> is
  Go's \<^verbatim>\<open>sum\<close>.\<close>

function RealizedVolatility_loop :: "real list \<Rightarrow> nat \<Rightarrow> real \<times> real \<Rightarrow> real \<times> real" where
  "RealizedVolatility_loop logReturns i (sum1, sum2) =
     (if i < length logReturns
      then (let r = logReturns ! i in
            RealizedVolatility_loop logReturns (i + 1) (sum1 + r, sum2 + r * r))
      else (sum1, sum2))"
  by pat_completeness auto
termination
  by (relation "measure (\<lambda>(logReturns, i, acc). length logReturns - i)") auto

declare RealizedVolatility_loop.simps [simp del]

definition RealizedVolatility :: "real list \<Rightarrow> int \<Rightarrow> real \<Rightarrow> float64" where
  "RealizedVolatility logReturns window barsPerYear =
     (if window \<le> 1 \<or> int (length logReturns) < window then Finite 0
      else
        (let (sum1, sum2) =
               RealizedVolatility_loop logReturns (nat (int (length logReturns) - window)) (0, 0);
             n = real_of_int window;
             mean = sum1 / n;
             variance = (sum2 - n * mean * mean) / (n - 1);
             variance = (if variance < 0 then 0 else variance)
         in go_sqrt (variance * barsPerYear)))"

definition BarsPerYearForTF :: "string \<Rightarrow> real" where
  "BarsPerYearForTF tf =
     (if tf = ''1s'' then 365 * 24 * 60 * 60
      else if tf = ''1m'' then 365 * 24 * 60
      else if tf = ''5m'' then 365 * 24 * 12
      else 365 * 24 * 60)"

text \<open>The specification's formula, written from its words: over the last \<open>W\<close> returns, with
  \<open>\<mu>\<close> their mean, the square root of \<open>max 0 ((\<Sum>r\<^sup>2 - W \<mu>\<^sup>2) / (W - 1)) * barsPerYear\<close>.\<close>

definition lastWindow :: "real list \<Rightarrow> int \<Rightarrow> real list" where
  "lastWindow rs W = drop (length rs - nat W) rs"

definition spec_realizedVol :: "real list \<Rightarrow> int \<Rightarrow> real \<Rightarrow> float64" where
  "spec_realizedVol rs W barsPerYear =
     (let w = lastWindow rs W;
          \<mu> = sum_list w / real_of_int W
      in go_sqrt (max 0 ((sum_list (map (\<lambda>r. r\<^sup>2) w) - real_of_int W * \<mu>\<^sup>2)
                         / (real_of_int W - 1)) * barsPerYear))"

text \<open>A candle with a given close, for the worked examples.\<close>

definition candleClose :: "real \<Rightarrow> Candle" where
  "candleClose c =
     \<lparr>Bucket = 0, Symbol = ''BTC'', Open = c, High = c, Low = c, Close = c, Volume = 1,
      OrgID = ''''\<rparr>"

subsection \<open>Token-bucket rate limiter (package ratelimit)\<close>

record bucket =
  tokens :: real
  capacity :: real
  refillRate :: real
  last' :: time

text \<open>The map holds pointers to buckets that \<^verbatim>\<open>Allow\<close> mutates in place; under the limiter's
  mutex this is an update of the map.\<close>

record Limiter =
  m :: "string \<rightharpoonup> bucket"

definition New :: Limiter where
  "New = \<lparr>m = Map.empty\<rparr>"

text \<open>\<^verbatim>\<open>Duration.Seconds()\<close>.\<close>

definition Seconds :: "duration \<Rightarrow> real" where
  "Seconds d = real_of_int d / 1000000000"

text \<open>The block under \<^verbatim>\<open>// refill\<close>.\<close>

definition refill :: "bucket \<Rightarrow> time \<Rightarrow> bucket" where
  "refill b now =
     (let elapsed = Seconds (now - last' b) in
      if elapsed > 0
      then (let b = b\<lparr>tokens := tokens b + elapsed * refillRate b\<rparr>;
                b = (if tokens b > capacity b then b\<lparr>tokens := capacity b\<rparr> else b)
            in b\<lparr>last' := now\<rparr>)
      else b)"

definition Allow :: "Limiter \<Rightarrow> time \<Rightarrow> string \<Rightarrow> real \<Rightarrow> real \<Rightarrow> bool \<times> Limiter" where
  "Allow l now key cap refillPerSec =
     (let (b, l) =
            (case m l key of
               Some b \<Rightarrow> (b, l)
             | None \<Rightarrow>
                 (let b = \<lparr>tokens = cap, capacity = cap, refillRate = refillPerSec, last' = now\<rparr>
                  in (b, l\<lparr>m := (m l)(key \<mapsto> b)\<rparr>)));
          b = refill b now
      in if tokens b \<ge> 1
         then (True, l\<lparr>m := (m l)(key \<mapsto> b\<lparr>tokens := tokens b - 1\<rparr>)\<rparr>)
         else (False, l\<lparr>m := (m l)(key \<mapsto> b)\<rparr>))"

text \<open>A sequence of \<^verbatim>\<open>Allow\<close> calls, each with its clock reading, key, capacity and rate.\<close>

fun AllowAll :: "Limiter \<Rightarrow> (time \<times> string \<times> real \<times> real) list \<Rightarrow> Limiter" where
  "AllowAll l [] = l"
| "AllowAll l ((now, key, cap, rate) # calls) = AllowAll (snd (Allow l now key cap rate)) calls"

text \<open>The invariant of every bucket the limiter holds: never above its capacity, and, when
  the refill rate is not negative, never below \<open>min 0 capacity\<close>.\<close>

definition bucket_ok :: "bucket \<Rightarrow> bool" where
  "bucket_ok b =
     (tokens b \<le> capacity b \<and> (refillRate b < 0 \<or> min 0 (capacity b) \<le> tokens b))"

subsection \<open>Kafka consumer: backoff (package kafka)\<close>

text \<open>Go's \<^verbatim>\<open>int64\<close> (and \<^verbatim>\<open>time.Duration\<close>) arithmetic wraps around in two's complement.\<close>

definition wrap64 :: "int \<Rightarrow> int" where
  "wrap64 x = (x + 2 ^ 63) mod 2 ^ 64 - 2 ^ 63"

text \<open>\<^verbatim>\<open>uint(x)\<close> of a 64-bit \<^verbatim>\<open>int\<close>.\<close>

definition uint64 :: "int \<Rightarrow> int" where
  "uint64 x = x mod 2 ^ 64"

text \<open>\<^verbatim>\<open>x << s\<close> on \<^verbatim>\<open>int64\<close> with an unsigned count: 0 once the count reaches the width.\<close>

definition shl64 :: "int \<Rightarrow> int \<Rightarrow> int" where
  "shl64 x s = (if s \<ge> 64 then 0 else wrap64 (x * 2 ^ nat s))"

text \<open>Go's integer division truncates towards zero (the divisor here is never 0).\<close>

definition go_div :: "int \<Rightarrow> int \<Rightarrow> int" where
  "go_div a b = sgn a * sgn b * (\<bar>a\<bar> div \<bar>b\<bar>)"

definition Millisecond :: duration where
  "Millisecond = 1000000"

definition Second :: duration where
  "Second = 1000000000"

text \<open>A call that can panic: it returns a value or panics with a message.\<close>

datatype 'a call = Returned 'a | Panicked string

text \<open>\<^verbatim>\<open>rand.Int63n(n)\<close> panics for \<open>n \<le> 0\<close>; otherwise it reduces the generator's accepted
  63-bit draw \<open>v\<close> modulo \<open>n\<close>. The draw is an argument of the model.\<close>

definition Int63n :: "int \<Rightarrow> int \<Rightarrow> int call" where
  "Int63n v n = (if n \<le> 0 then Panicked ''invalid argument to Int63n'' else Returned (v mod n))"

definition backoffWithJitter :: "duration \<Rightarrow> duration \<Rightarrow> int \<Rightarrow> int \<Rightarrow> duration call" where
  "backoffWithJitter min' max' attempt v =
     (let min' = (if min' \<le> 0 then 50 * Millisecond else min');
          max' = (if max' < min' then min' else max');
          exp' = wrap64 (min' * shl64 1 (uint64 (wrap64 (attempt - 1))));
          exp' = (if exp' > max' then max' else exp')
      in case Int63n v (go_div exp' 2) of
           Panicked r \<Rightarrow> Panicked r
         | Returned jitter \<Rightarrow> Returned (wrap64 (exp' - jitter)))"

subsection \<open>Kafka consumer: hooks (package kafka)\<close>

text \<open>\<^verbatim>\<open>context.Context\<close> as the list of values it carries; Go \<^verbatim>\<open>error\<close> values by their
  message, \<^verbatim>\<open>HookError\<close> with its code and wrapped message; a nil error is \<open>None\<close>.\<close>

type_synonym ctx = "(string \<times> string) list"

definition Background :: ctx where
  "Background = []"

datatype gerror = Error string | HookError string string

text \<open>\<^verbatim>\<open>kafka.Message\<close>.\<close>

record KMessage =
  Topic :: string
  Partition :: int
  Offset :: int
  Key :: bytes
  Value' :: bytes
  Headers :: "(string \<times> bytes) list"
  Time :: time

text \<open>The \<^verbatim>\<open>ConsumerHook\<close> interface. Hooks and handlers are Go objects that may keep state
  between calls, so every method takes, as its first argument, the number of the attempt at
  which the worker calls it; a method either returns or panics.\<close>

record ConsumerHook =
  BeforeHandle :: "int \<Rightarrow> ctx \<Rightarrow> string \<Rightarrow> KMessage \<Rightarrow> bytes
                   \<Rightarrow> (ctx \<times> KMessage \<times> bytes \<times> gerror option) call"
  AfterHandle :: "int \<Rightarrow> ctx \<Rightarrow> string \<Rightarrow> KMessage \<Rightarrow> bytes \<Rightarrow> gerror option \<Rightarrow> unit call"
  OnError :: "int \<Rightarrow> ctx \<Rightarrow> string \<Rightarrow> KMessage \<Rightarrow> bytes \<Rightarrow> gerror option \<Rightarrow> unit call"

definition NoopHook :: ConsumerHook where
  "NoopHook =
     \<lparr>BeforeHandle = (\<lambda>a ctx topic km data'. Returned (ctx, km, data', None)),
      AfterHandle = (\<lambda>a ctx topic km data' err. Returned ()),
      OnError = (\<lambda>a ctx topic km data' err. Returned ())\<rparr>"

subsection \<open>Kafka consumer: the worker (package kafka)\<close>

record MessageHandler =
  hTopic :: string
  Handle :: "int \<Rightarrow> ctx \<Rightarrow> bytes \<Rightarrow> gerror option call"

record ConsumerConfig =
  RetryMax :: int
  BackoffMin :: duration
  BackoffMax :: duration
  DLQTopic :: string

text \<open>The consumer: \<open>readers c t\<close> says that \<^verbatim>\<open>c.readers[t]\<close> is not nil, \<open>dlq c\<close> that
  \<^verbatim>\<open>c.dlq\<close> is not nil.\<close>

record Consumer =
  cfg :: ConsumerConfig
  readers :: "string \<Rightarrow> bool"
  handlers :: "string \<rightharpoonup> MessageHandler"
  dlq :: bool
  hook :: ConsumerHook

record message =
  topic :: string
  data' :: bytes
  km :: KMessage

text \<open>\<^verbatim>\<open>NewConsumer\<close> after the options have been applied to the configuration: the DLQ
  writer exists iff a DLQ topic is set.\<close>

definition NewConsumer :: "ConsumerConfig \<Rightarrow> Consumer" where
  "NewConsumer cf =
     \<lparr>cfg = cf, readers = (\<lambda>t. False), handlers = Map.empty, dlq = (DLQTopic cf \<noteq> ''''),
      hook = NoopHook\<rparr>"

definition RegisterHandler :: "Consumer \<Rightarrow> MessageHandler \<Rightarrow> Consumer" where
  "RegisterHandler c handler =
     (case handlers c (hTopic handler) of
        Some h \<Rightarrow> c
      | None \<Rightarrow> c\<lparr>handlers := (handlers c)(hTopic handler \<mapsto> handler)\<rparr>)"

definition WithConsumerHook :: "Consumer \<Rightarrow> ConsumerHook option \<Rightarrow> Consumer" where
  "WithConsumerHook c h = (case h of None \<Rightarrow> c | Some h' \<Rightarrow> c\<lparr>hook := h'\<rparr>)"

text \<open>\<^verbatim>\<open>Start\<close> creates one reader per registered topic.\<close>

definition Start :: "Consumer \<Rightarrow> Consumer" where
  "Start c = c\<lparr>readers := (\<lambda>t. readers c t \<or> handlers c t \<noteq> None)\<rparr>"

text \<open>What the surroundings decide during the handling of one message: whether the stop
  channel wins the \<^verbatim>\<open>select\<close> against the backoff timer of an attempt, the random draws,
  the clock reading and the outcome of the DLQ write, and the outcome of each
  \<^verbatim>\<open>CommitMessages\<close> call.\<close>

record env =
  stopped :: "int \<Rightarrow> bool"
  draw :: "int \<Rightarrow> int"
  dlqTime :: time
  dlqWrite :: "KMessage \<Rightarrow> gerror option"
  commitMessages :: "int \<Rightarrow> gerror option"
  commitDraw :: "int \<Rightarrow> int"

text \<open>The observable calls of the worker, in order.\<close>

datatype event =
    EvBeforeHandle int
  | EvHandle int ctx bytes
  | EvAfterHandle int "gerror option"
  | EvOnError int "gerror option"
  | EvSleep duration
  | EvDLQ KMessage "gerror option"
  | EvCommit KMessage int "gerror option"

text \<open>How the retry loop is left: by \<^verbatim>\<open>break\<close> (with \<^verbatim>\<open>err\<close> and \<^verbatim>\<open>attempts\<close>), by the
  \<^verbatim>\<open>return\<close> on the stop channel, or by a panic.\<close>

datatype loop_exit = Break "gerror option" int | Return | LoopPanic string

text \<open>The \<^verbatim>\<open>for\<close> loop of \<^verbatim>\<open>messageWorker\<close>; the argument \<open>attempts\<close> is the counter before
  \<^verbatim>\<open>attempts++\<close>.\<close>

function attemptLoop ::
  "Consumer \<Rightarrow> MessageHandler \<Rightarrow> env \<Rightarrow> message \<Rightarrow> int \<Rightarrow> event list \<times> loop_exit" where
  "attemptLoop c handler e msg attempts0 =
     (let attempts = attempts0 + 1 in
      case BeforeHandle (hook c) attempts Background (topic msg) (km msg) (data' msg) of
        Panicked r \<Rightarrow> ([EvBeforeHandle attempts], LoopPanic r)
      | Returned (hctx, hmsg, hdata, berr) \<Rightarrow>
          if berr \<noteq> None then ([EvBeforeHandle attempts], Break berr attempts)
          else
            (case Handle handler attempts hctx hdata of
               Panicked r \<Rightarrow>
                 ([EvBeforeHandle attempts, EvHandle attempts hctx hdata], LoopPanic r)
             | Returned err \<Rightarrow>
                 (case AfterHandle (hook c) attempts hctx (topic msg) hmsg hdata err of
                    Panicked r \<Rightarrow>
                      ([EvBeforeHandle attempts, EvHandle attempts hctx hdata,
                        EvAfterHandle attempts err], LoopPanic r)
                  | Returned u \<Rightarrow>
                      if err = None \<or> attempts > RetryMax (cfg c)
                      then ([EvBeforeHandle attempts, EvHandle attempts hctx hdata,
                             EvAfterHandle attempts err], Break err attempts)
                      else
                        (case OnError (hook c) attempts hctx (topic msg) hmsg hdata err of
                           Panicked r \<Rightarrow>
                             ([EvBeforeHandle attempts, EvHandle attempts hctx hdata,
                               EvAfterHandle attempts err, EvOnError attempts err], LoopPanic r)
                         | Returned u \<Rightarrow>
                             (case backoffWithJitter (BackoffMin (cfg c)) (BackoffMax (cfg c))
                                     attempts (draw e attempts) of
                                Panicked r \<Rightarrow>
                                  ([EvBeforeHandle attempts, EvHandle attempts hctx hdata,
                                    EvAfterHandle attempts err, EvOnError attempts err],
                                   LoopPanic r)
                              | Returned sleep \<Rightarrow>
                                  if stopped e attempts
                                  then ([EvBeforeHandle attempts, EvHandle attempts hctx hdata,
                                         EvAfterHandle attempts err, EvOnError attempts err],
                                        Return)
                                  else
                                    (let (evs, ex) = attemptLoop c handler e msg attempts
                                     in ([EvBeforeHandle attempts, EvHandle attempts hctx hdata,
                                          EvAfterHandle attempts err, EvOnError attempts err,
                                          EvSleep sleep] @ evs, ex)))))))"
  by pat_completeness auto
termination
  by (relation "measure (\<lambda>(c, handler, e, msg, attempts0). nat (RetryMax (cfg c) - attempts0))")
    auto

declare attemptLoop.simps [simp del]

text \<open>\<^verbatim>\<open>commitWithRetry\<close>: the loop \<^verbatim>\<open>for attempt := 1; attempt <= max; attempt++\<close>.\<close>

datatype commit_exit = Committed | CommitFailed "gerror option" | CommitPanic string

function commitLoop :: "env \<Rightarrow> KMessage \<Rightarrow> int \<Rightarrow> int \<Rightarrow> gerror option \<Rightarrow> event list \<times> commit_exit" where
  "commitLoop e kmsg max' attempt err0 =
     (if attempt \<le> max'
      then (let err = commitMessages e attempt in
            if err = None then ([EvCommit kmsg attempt err], Committed)
            else
              (case backoffWithJitter (50 * Millisecond) (500 * Millisecond) attempt
                      (commitDraw e attempt) of
                 Panicked r \<Rightarrow> ([EvCommit kmsg attempt err], CommitPanic r)
               | Returned sleep \<Rightarrow>
                   (let (evs, ex) = commitLoop e kmsg max' (attempt + 1) err
                    in ([EvCommit kmsg attempt err, EvSleep sleep] @ evs, ex))))
      else ([], CommitFailed err0))"
  by pat_completeness auto
termination
  by (relation "measure (\<lambda>(e, kmsg, max', attempt, err0). nat (max' + 1 - attempt))") auto

declare commitLoop.simps [simp del]

definition commitWithRetry :: "env \<Rightarrow> KMessage \<Rightarrow> int \<Rightarrow> event list \<times> commit_exit" where
  "commitWithRetry e kmsg max' =
     (let max' = (if max' \<le> 0 then 1 else max') in commitLoop e kmsg max' 1 None)"

text \<open>The message written to the DLQ topic: the original payload \<^verbatim>\<open>msg.data\<close> and one header
  \<^verbatim>\<open>source_topic\<close> holding \<^verbatim>\<open>handler.Topic()\<close>; the other fields keep their zero values.\<close>

definition dlqMessage :: "Consumer \<Rightarrow> MessageHandler \<Rightarrow> env \<Rightarrow> message \<Rightarrow> KMessage" where
  "dlqMessage c handler e msg =
     \<lparr>Topic = DLQTopic (cfg c), Partition = 0, Offset = 0, Key = [], Value' = data' msg,
      Headers = [(''source_topic'', hTopic handler)], Time = dlqTime e\<rparr>"

text \<open>The block \<^verbatim>\<open>if err != nil { ... }\<close> after the loop: the error hook, then the DLQ write
  when a DLQ is configured (its error is only logged). The second component is the panic
  of the hook, if any.\<close>

definition errorPath ::
  "Consumer \<Rightarrow> MessageHandler \<Rightarrow> env \<Rightarrow> message \<Rightarrow> gerror option \<Rightarrow> int
    \<Rightarrow> event list \<times> string option" where
  "errorPath c handler e msg err attempts =
     (if err \<noteq> None
      then
        (case OnError (hook c) attempts Background (topic msg) (km msg) (data' msg) err of
           Panicked r \<Rightarrow> ([EvOnError attempts err], Some r)
         | Returned u \<Rightarrow>
             if dlq c \<and> DLQTopic (cfg c) \<noteq> ''''
             then ([EvOnError attempts err,
                    EvDLQ (dlqMessage c handler e msg) (dlqWrite e (dlqMessage c handler e msg))],
                   None)
             else ([EvOnError attempts err], None))
      else ([], None))"

text \<open>How the handling of one message ends: no handler for the topic, the closure ran to
  its end, it returned on the stop channel, or the deferred function recovered a panic.\<close>

datatype worker_exit = NoHandler | Done | Stopped | Recovered string

text \<open>The body of \<^verbatim>\<open>for msg := range c.msgChan\<close> for one message. The per-partition mutex is
  taken and released around it and does not show in a run of a single worker.\<close>

definition messageWorker :: "Consumer \<Rightarrow> env \<Rightarrow> message \<Rightarrow> event list \<times> worker_exit" where
  "messageWorker c e msg =
     (case handlers c (topic msg) of
        None \<Rightarrow> ([], NoHandler)
      | Some handler \<Rightarrow>
          (case attemptLoop c handler e msg 0 of
             (evs, LoopPanic r) \<Rightarrow> (evs, Recovered r)
           | (evs, Return) \<Rightarrow> (evs, Stopped)
           | (evs, Break err attempts) \<Rightarrow>
               (case errorPath c handler e msg err attempts of
                  (evs2, Some r) \<Rightarrow> (evs @ evs2, Recovered r)
                | (evs2, None) \<Rightarrow>
                    if err = None \<or> (dlq c \<and> DLQTopic (cfg c) \<noteq> '''')
                    then
                      (if readers c (topic msg)
                       then (case commitWithRetry e (km msg) 3 of
                               (evs3, CommitPanic r) \<Rightarrow> (evs @ evs2 @ evs3, Recovered r)
                             | (evs3, ex) \<Rightarrow> (evs @ evs2 @ evs3, Done))
                       else (evs @ evs2, Done))
                    else (evs @ evs2, Done))))"

text \<open>Counting the calls in a trace.\<close>

fun isHandle :: "event \<Rightarrow> bool" where
  "isHandle (EvHandle a ctx d) = True"
| "isHandle ev = False"

fun isBeforeHandle :: "event \<Rightarrow> bool" where
  "isBeforeHandle (EvBeforeHandle a) = True"
| "isBeforeHandle ev = False"

fun isSleep :: "event \<Rightarrow> bool" where
  "isSleep (EvSleep d) = True"
| "isSleep ev = False"

fun isDLQ :: "event \<Rightarrow> bool" where
  "isDLQ (EvDLQ x r) = True"
| "isDLQ ev = False"

fun isCommit :: "event \<Rightarrow> bool" where
  "isCommit (EvCommit x a r) = True"
| "isCommit ev = False"

definition handlerCalls :: "event list \<Rightarrow> int" where
  "handlerCalls evs = int (length (filter isHandle evs))"

text \<open>One pass through the body of the retry loop, for the attempt number after
  \<^verbatim>\<open>attempts++\<close>: its calls, and how it leaves the loop (\<open>None\<close>: it goes round again).
  \<open>attemptLoop\<close> is proved below to be the iteration of this step.\<close>

definition attemptStep ::
  "Consumer \<Rightarrow> MessageHandler \<Rightarrow> env \<Rightarrow> message \<Rightarrow> int \<Rightarrow> event list \<times> loop_exit option" where
  "attemptStep c handler e msg attempts =
     (case BeforeHandle (hook c) attempts Background (topic msg) (km msg) (data' msg) of
        Panicked r \<Rightarrow> ([EvBeforeHandle attempts], Some (LoopPanic r))
      | Returned (hctx, hmsg, hdata, berr) \<Rightarrow>
          if berr \<noteq> None then ([EvBeforeHandle attempts], Some (Break berr attempts))
          else
            (case Handle handler attempts hctx hdata of
               Panicked r \<Rightarrow>
                 ([EvBeforeHandle attempts, EvHandle attempts hctx hdata], Some (LoopPanic r))
             | Returned err \<Rightarrow>
                 (case AfterHandle (hook c) attempts hctx (topic msg) hmsg hdata err of
                    Panicked r \<Rightarrow>
                      ([EvBeforeHandle attempts, EvHandle attempts hctx hdata,
                        EvAfterHandle attempts err], Some (LoopPanic r))
                  | Returned u \<Rightarrow>
                      if err = None \<or> attempts > RetryMax (cfg c)
                      then ([EvBeforeHandle attempts, EvHandle attempts hctx hdata,
                             EvAfterHandle attempts err], Some (Break err attempts))
                      else
                        (case OnError (hook c) attempts hctx (topic msg) hmsg hdata err of
                           Panicked r \<Rightarrow>
                             ([EvBeforeHandle attempts, EvHandle attempts hctx hdata,
                               EvAfterHandle attempts err, EvOnError attempts err],
                              Some (LoopPanic r))
                         | Returned u \<Rightarrow>
                             (case backoffWithJitter (BackoffMin (cfg c)) (BackoffMax (cfg c))
                                     attempts (draw e attempts) of
                                Panicked r \<Rightarrow>
                                  ([EvBeforeHandle attempts, EvHandle attempts hctx hdata,
                                    EvAfterHandle attempts err, EvOnError attempts err],
                                   Some (LoopPanic r))
                              | Returned sleep \<Rightarrow>
                                  if stopped e attempts
                                  then ([EvBeforeHandle attempts, EvHandle attempts hctx hdata,
                                         EvAfterHandle attempts err, EvOnError attempts err],
                                        Some Return)
                                  else ([EvBeforeHandle attempts, EvHandle attempts hctx hdata,
                                         EvAfterHandle attempts err, EvOnError attempts err,
                                         EvSleep sleep], None))))))"

text \<open>A worked configuration: two retries, a DLQ topic, a handler for topic \<open>ticks\<close> that
  fails on every call, surroundings in which nothing stops the worker, the DLQ write fails
  and the first commit succeeds; and the same consumer with a hook whose \<open>BeforeHandle\<close>
  rejects every message, or without a DLQ topic.\<close>

definition exampleCfg :: ConsumerConfig where
  "exampleCfg =
     \<lparr>RetryMax = 2, BackoffMin = 50 * Millisecond, BackoffMax = 2 * Second,
      DLQTopic = ''ticks.dlq''\<rparr>"

definition failingHandler :: MessageHandler where
  "failingHandler =
     \<lparr>hTopic = ''ticks'', Handle = (\<lambda>a ctx d. Returned (Some (Error ''store down'')))\<rparr>"

definition exampleConsumer :: Consumer where
  "exampleConsumer = Start (RegisterHandler (NewConsumer exampleCfg) failingHandler)"

definition noDlqConsumer :: Consumer where
  "noDlqConsumer =
     Start (RegisterHandler (NewConsumer (exampleCfg\<lparr>DLQTopic := ''''\<rparr>)) failingHandler)"

definition rejectingHook :: ConsumerHook where
  "rejectingHook =
     \<lparr>BeforeHandle = (\<lambda>a ctx topic km data'.
        Returned (ctx, km, data', Some (HookError ''ERR_VALIDATION'' ''bad payload''))),
      AfterHandle = (\<lambda>a ctx topic km data' err. Returned ()),
      OnError = (\<lambda>a ctx topic km data' err. Returned ())\<rparr>"

definition hookConsumer :: Consumer where
  "hookConsumer = WithConsumerHook exampleConsumer (Some rejectingHook)"

definition exampleEnv :: env where
  "exampleEnv =
     \<lparr>stopped = (\<lambda>a. False), draw = (\<lambda>a. 0), dlqTime = 0,
      dlqWrite = (\<lambda>x. Some (Error ''dlq down'')), commitMessages = (\<lambda>a. None),
      commitDraw = (\<lambda>a. 0)\<rparr>"

definition exampleMsg :: message where
  "exampleMsg =
     \<lparr>topic = ''ticks'', data' = ''payload'',
      km = \<lparr>Topic = ''ticks'', Partition = 0, Offset = 7, Key = ''BTC'', Value' = ''payload'',
             Headers = [], Time = 0\<rparr>\<rparr>"

subsection \<open>Kafka consumer: the hook chain (package kafka)\<close>





text \<open>The calls the chain makes, each with the position of the hook in the chain and the
  (ctx, message, payload) triple it is given.\<close>

type_synonym triple = "ctx \<times> KMessage \<times> bytes"

datatype hook_event =
    HBefore nat triple
  | HAfter nat triple "gerror option"
  | HOnError nat triple "gerror option"











text \<open>The \<open>BeforeHandle\<close> calls to the hooks at positions \<open>i\<close>, \<open>i + 1\<close>, ... with the given
  triples, in this order.\<close>

fun beforeEvents :: "nat \<Rightarrow> triple list \<Rightarrow> hook_event list" where
  "beforeEvents i [] = []"
| "beforeEvents i (z # zs) = HBefore i z # beforeEvents (Suc i) zs"




subsection \<open>Realtime pipeline (package middleware)\<close>

text \<open>Modelled from the spec: the declaration of the struct \<^verbatim>\<open>models.Trade\<close> is not among the
  sources. The specification's data model gives a trade a symbol, a unix timestamp in
  seconds, a price and a volume; these are the four fields the sources read and write
  (\<^verbatim>\<open>&models.Trade{Symbol: d.S, Timestamp: sec, Price: d.P, Volume: d.V}\<close>).\<close>

record Trade =
  Symbol :: string
  Timestamp :: int
  Price :: real
  Volume :: real

text \<open>The calls on the metrics collaborator.\<close>

datatype metric = RecordError string | RecordLatency string real

text \<open>The pipeline. \<open>bufCh\<close> is the content of the buffered channel, oldest first, whose
  capacity is \<open>bufSize\<close>. \<open>lastSeen\<close> maps a symbol to the time it was last accepted; Go reads the
  zero \<^verbatim>\<open>time.Time\<close> for a missing key, and \<^verbatim>\<open>time.Now()\<close> is never zero, so a missing key
  is \<open>None\<close>. \<open>metrics\<close> and \<open>forwarded\<close> log the calls to the metrics collaborator and to
  \<^verbatim>\<open>proc.Process\<close>. A \<^verbatim>\<open>*models.Trade\<close> is a \<open>Trade option\<close>, nil being \<open>None\<close>.\<close>

record RealtimePipeline =
  maxRPS :: int
  bufSize :: int
  bufCh :: "Trade list"
  lastSeen :: "string \<rightharpoonup> time"
  transform :: "(Trade option \<Rightarrow> Trade option) option"
  metrics :: "metric list"
  forwarded :: "Trade list"

text \<open>The fields of the pipeline are unexported, so the options of the package are the only
  ones: \<^verbatim>\<open>WithMaxRPS\<close> and \<^verbatim>\<open>WithBufferSize\<close> ignore a value that is not positive.\<close>

datatype PipelineOption =
    WithMaxRPS int
  | WithBufferSize int
  | WithTransform "(Trade option \<Rightarrow> Trade option) option"

fun applyOption :: "PipelineOption \<Rightarrow> RealtimePipeline \<Rightarrow> RealtimePipeline" where
  "applyOption (WithMaxRPS n) p = (if n > 0 then p\<lparr>maxRPS := n\<rparr> else p)"
| "applyOption (WithBufferSize n) p = (if n > 0 then p\<lparr>bufSize := n\<rparr> else p)"
| "applyOption (WithTransform fn) p = p\<lparr>transform := fn\<rparr>"

definition NewRealtimePipeline :: "PipelineOption list \<Rightarrow> RealtimePipeline" where
  "NewRealtimePipeline opts =
     fold applyOption opts
       \<lparr>maxRPS = 20, bufSize = 1000, bufCh = [], lastSeen = Map.empty, transform = None,
        metrics = [], forwarded = []\<rparr>"




definition recordMetric :: "metric \<Rightarrow> RealtimePipeline \<Rightarrow> RealtimePipeline" where
  "recordMetric x p = p\<lparr>metrics := metrics p @ [x]\<rparr>"

text \<open>\<^verbatim>\<open>select { case p.bufCh <- t: ... default: ... }\<close>: the send succeeds iff the channel has
  room; \<open>full\<close> is the name of the counter recorded otherwise, \<open>gauge\<close> says whether the
  buffer depth is reported after a send.\<close>

definition enqueue :: "Trade \<Rightarrow> string \<Rightarrow> bool \<Rightarrow> RealtimePipeline \<Rightarrow> RealtimePipeline" where
  "enqueue tr full gauge p =
     (if int (length (bufCh p)) < bufSize p
      then (let p = p\<lparr>bufCh := bufCh p @ [tr]\<rparr> in
            if gauge
            then recordMetric (RecordLatency ''pipeline_buffer_depth'' (real (length (bufCh p)))) p
            else p)
      else recordMetric (RecordError full) p)"



text \<open>The background flusher of \<^verbatim>\<open>Start\<close>, for the trades it receives from \<open>bufCh\<close> one after
  the other: \<open>outcomes\<close> lists what the downstream answers to each \<^verbatim>\<open>proc.Process\<close> call;
  \<open>backoff\<close> is the loop's variable. The result lists the durations passed to
  \<^verbatim>\<open>time.Sleep\<close>. The loop waits when the buffer is empty; the run ends there, or with the
  outcomes.\<close>

fun flusher ::
  "gerror option list \<Rightarrow> duration \<Rightarrow> RealtimePipeline \<Rightarrow> duration list \<times> duration \<times> RealtimePipeline" where
  "flusher [] backoff p = ([], backoff, p)"
| "flusher (out # outs) backoff p =
     (case bufCh p of
        [] \<Rightarrow> ([], backoff, p)
      | tr # buf \<Rightarrow>
          (let p = p\<lparr>bufCh := buf, forwarded := forwarded p @ [tr]\<rparr> in
           case out of
             Some err \<Rightarrow>
               (let backoff = (if backoff < 2 * Second then backoff * 2 else backoff);
                    p = recordMetric (RecordError ''pipeline_flush'') p;
                    p = enqueue tr ''pipeline_buffer_drop'' False p;
                    (sleeps, b, p') = flusher outs backoff p
                in (backoff # sleeps, b, p'))
           | None \<Rightarrow> flusher outs (50 * Millisecond) p))"

definition exampleTrade :: Trade where
  "exampleTrade = \<lparr>Symbol = ''BTC'', Timestamp = 1700000000, Price = 42000, Volume = 1 / 2\<rparr>"

definition examplePipeline :: RealtimePipeline where
  "examplePipeline = NewRealtimePipeline [WithMaxRPS 50, WithBufferSize 2000]"

text \<open>The consumer of \<^verbatim>\<open>WithConsumerRetry(2, 1, 1)\<close> and \<^verbatim>\<open>WithConsumerDLQ("ticks.dlq")\<close>, a backoff
  range of one nanosecond, and the one of \<^verbatim>\<open>WithConsumerRetry(-1, 50ms, 2s)\<close>; \<^verbatim>\<open>NewConsumer\<close>
  takes both as they are.\<close>

definition tinyBackoffConsumer :: Consumer where
  "tinyBackoffConsumer =
     Start (RegisterHandler
       (NewConsumer (exampleCfg\<lparr>BackoffMin := 1, BackoffMax := 1\<rparr>)) failingHandler)"

definition negRetryConsumer :: Consumer where
  "negRetryConsumer =
     Start (RegisterHandler (NewConsumer (exampleCfg\<lparr>RetryMax := - 1\<rparr>)) failingHandler)"

section \<open>Theorems\<close>

text \<open>
  C10. For every pattern, also one that matches no stored key, \<open>DeleteByPattern\<close> returns nil
  and leaves both the data map and the access-time map empty; a \<open>Get\<close> on any key afterwards
  (at any time, for any destination type) reports a cache miss and leaves the cache empty.
  The last conjunct is the concrete case of a stored, unexpired key \<open>regime:BTC:1m\<close> and the
  unrelated pattern \<open>vol:*\<close>: the key is readable before and missing after.
\<close>

theorem C10_DeleteByPattern_wipes_all:
  "fst (DeleteByPattern mc pattern) = None
   \<and> data (snd (DeleteByPattern mc pattern)) = Map.empty
   \<and> access (snd (DeleteByPattern mc pattern)) = Map.empty
   \<and> fst (Get (snd (DeleteByPattern mc pattern)) now key d) = GetErr ErrCacheMiss
   \<and> fst (Get Set_cache_example 5 ''regime:BTC:1m'' DestString) = GetOk (VString ''x'')
   \<and> fst (Get (snd (DeleteByPattern Set_cache_example ''vol:*'')) 5 ''regime:BTC:1m'' DestString)
       = GetErr ErrCacheMiss"
  by (simp add: DeleteByPattern_def Get_def Set_cache_example_def IsExpired_def)

subsection \<open>Log returns and realized volatility\<close>

lemma ComputeLogReturns_loop_eq:
  "ComputeLogReturns_loop cs i out =
     out @ map (\<lambda>j. if Close (cs ! (j - 1)) \<le> 0 \<or> Close (cs ! j) \<le> 0 then 0
                     else ln (Close (cs ! j) / Close (cs ! (j - 1)))) [i..<length cs]"
proof (induction cs i out rule: ComputeLogReturns_loop.induct)
  case (1 candles i out)
  show ?case
  proof (cases "i < length candles")
    case True
    then have up: "[i..<length candles] = i # [i + 1..<length candles]"
      by (simp add: upt_conv_Cons)
    show ?thesis
      using True 1
      by (subst ComputeLogReturns_loop.simps) (simp add: up Let_def)
  next
    case False
    then show ?thesis
      by (subst ComputeLogReturns_loop.simps) simp
  qed
qed

lemma ComputeLogReturns_eq:
  "ComputeLogReturns cs =
     map (\<lambda>j. if Close (cs ! (j - 1)) \<le> 0 \<or> Close (cs ! j) \<le> 0 then 0
               else ln (Close (cs ! j) / Close (cs ! (j - 1)))) [1..<length cs]"
  by (simp add: ComputeLogReturns_def ComputeLogReturns_loop_eq)

text \<open>Bounds on \<open>exp\<close> from its Maclaurin polynomial of degree 3, to place \<open>ln 1.1\<close>.\<close>

lemma exp_09530_less: "exp (9530 / 100000 :: real) < 11 / 10"
proof -
  let ?x = "9530 / 100000 :: real"
  obtain t where t: "\<bar>t\<bar> \<le> \<bar>?x\<bar>"
    and e: "exp ?x = (\<Sum>m<4. (?x ^ m) / fact m) + (exp t / fact 4) * ?x ^ 4"
    using Maclaurin_exp_le [of ?x 4] by blast
  have "t \<le> 1" using t by simp
  then have "exp t \<le> exp 1" by simp
  also have "\<dots> \<le> 3" using exp_le by simp
  finally have et: "exp t \<le> 3" .
  have "(exp t / fact 4) * ?x ^ 4 \<le> (3 / fact 4) * ?x ^ 4"
    by (intro mult_right_mono divide_right_mono et) simp_all
  then have "exp ?x \<le> (\<Sum>m<4. (?x ^ m) / fact m) + (3 / fact 4) * ?x ^ 4"
    using e by linarith
  also have "\<dots> < 11 / 10"
    by (simp add: lessThan_nat_numeral fact_numeral power_divide)
  finally show ?thesis .
qed

lemma exp_09532_greater: "11 / 10 < exp (9532 / 100000 :: real)"
proof -
  let ?x = "9532 / 100000 :: real"
  obtain t where t: "\<bar>t\<bar> \<le> \<bar>?x\<bar>"
    and e: "exp ?x = (\<Sum>m<4. (?x ^ m) / fact m) + (exp t / fact 4) * ?x ^ 4"
    using Maclaurin_exp_le [of ?x 4] by blast
  have "0 \<le> (exp t / fact 4) * ?x ^ 4" by simp
  then have "(\<Sum>m<4. (?x ^ m) / fact m) \<le> exp ?x"
    using e by linarith
  moreover have "11 / 10 < (\<Sum>m<4. (?x ^ m) / fact m)"
    by (simp add: lessThan_nat_numeral fact_numeral power_divide)
  ultimately show ?thesis by linarith
qed

lemma ln_11_10_bounds:
  "9530 / 100000 < ln (11 / 10 :: real)" "ln (11 / 10 :: real) < 9532 / 100000"
proof -
  have "exp (9530 / 100000 :: real) < exp (ln (11 / 10))" using exp_09530_less by simp
  then show "9530 / 100000 < ln (11 / 10 :: real)" by (simp only: exp_less_cancel_iff)
  have "exp (ln (11 / 10)) < exp (9532 / 100000 :: real)" using exp_09532_greater by simp
  then show "ln (11 / 10 :: real) < 9532 / 100000" by (simp only: exp_less_cancel_iff)
qed

text \<open>
  C8. For every candle list the result of \<open>ComputeLogReturns\<close> has length
  \<open>max 0 (len - 1)\<close>; for every index \<open>i\<close> with \<open>1 \<le> i < len\<close> its element at position
  \<open>i - 1\<close> (the i-th return) is \<open>ln (Close\<^sub>i / Close\<^sub>i\<^sub>-\<^sub>1)\<close> when both closes are positive
  and 0 otherwise; closes 100, 110, 121 give two elements, both \<open>ln 1.1\<close>, which lies
  within 0.00001 of 0.09531.
\<close>

theorem C8_ComputeLogReturns:
  "int (length (ComputeLogReturns candles)) = max 0 (int (length candles) - 1)
   \<and> (\<forall>i. 1 \<le> i \<and> i < length candles \<longrightarrow>
          ComputeLogReturns candles ! (i - 1) =
            (if 0 < Close (candles ! (i - 1)) \<and> 0 < Close (candles ! i)
             then ln (Close (candles ! i) / Close (candles ! (i - 1))) else 0))
   \<and> ComputeLogReturns [candleClose 100, candleClose 110, candleClose 121]
       = [ln (11 / 10), ln (11 / 10)]
   \<and> \<bar>ln (11 / 10 :: real) - 9531 / 100000\<bar> < 1 / 100000"
proof (intro conjI allI impI)
  show "int (length (ComputeLogReturns candles)) = max 0 (int (length candles) - 1)"
    by (simp add: ComputeLogReturns_eq)
next
  fix i assume "1 \<le> i \<and> i < length candles"
  then have "map (\<lambda>j. if Close (candles ! (j - 1)) \<le> 0 \<or> Close (candles ! j) \<le> 0 then 0
               else ln (Close (candles ! j) / Close (candles ! (j - 1)))) [1..<length candles]
             ! (i - 1)
           = (if Close (candles ! (i - 1)) \<le> 0 \<or> Close (candles ! i) \<le> 0 then 0
               else ln (Close (candles ! i) / Close (candles ! (i - 1))))"
    by (subst nth_map) (auto simp: nth_upt)
  then show "ComputeLogReturns candles ! (i - 1) =
            (if 0 < Close (candles ! (i - 1)) \<and> 0 < Close (candles ! i)
             then ln (Close (candles ! i) / Close (candles ! (i - 1))) else 0)"
    by (simp add: ComputeLogReturns_eq not_less)
next
  have up: "[1..<3] = [1, 2::nat]" by (simp add: upt_conv_Cons)
  show "ComputeLogReturns [candleClose 100, candleClose 110, candleClose 121]
       = [ln (11 / 10), ln (11 / 10)]"
    by (simp add: ComputeLogReturns_eq up candleClose_def)
next
  show "\<bar>ln (11 / 10 :: real) - 9531 / 100000\<bar> < 1 / 100000"
    using ln_11_10_bounds by linarith
qed

theorem C8_ComputeLogReturns_witness:
  "ComputeLogReturns [candleClose 100, candleClose 110] ! 0 = ln (110 / 100)
   \<and> ComputeLogReturns [candleClose 100, candleClose 0] ! 0 = 0"
proof -
  have a: "ComputeLogReturns [candleClose 100, candleClose 110] ! (1 - 1) = ln (110 / 100)"
    using C8_ComputeLogReturns [of "[candleClose 100, candleClose 110]", THEN conjunct2,
        THEN conjunct1, THEN spec, of 1]
    by (simp add: candleClose_def)
  have b: "ComputeLogReturns [candleClose 100, candleClose 0] ! (1 - 1) = 0"
    using C8_ComputeLogReturns [of "[candleClose 100, candleClose 0]", THEN conjunct2,
        THEN conjunct1, THEN spec, of 1]
    by (simp add: candleClose_def)
  from a b show ?thesis by simp
qed

lemma RealizedVolatility_loop_eq:
  "RealizedVolatility_loop rs i (s, s2) =
     (s + sum_list (drop i rs), s2 + sum_list (map (\<lambda>r. r\<^sup>2) (drop i rs)))"
proof (induction rs i "(s, s2)" arbitrary: s s2 rule: RealizedVolatility_loop.induct)
  case (1 logReturns i sum1 sum2)
  show ?case
  proof (cases "i < length logReturns")
    case True
    then have d: "drop i logReturns = logReturns ! i # drop (i + 1) logReturns"
      by (simp add: Cons_nth_drop_Suc)
    show ?thesis
      using True 1
      by (subst RealizedVolatility_loop.simps) (simp add: d Let_def power2_eq_square)
  next
    case False
    then show ?thesis
      by (subst RealizedVolatility_loop.simps) simp
  qed
qed

lemma RealizedVolatility_formula:
  assumes "1 < W" "W \<le> int (length rs)"
  shows "RealizedVolatility rs W bpy = spec_realizedVol rs W bpy"
proof -
  have n: "nat (int (length rs) - W) = length rs - nat W" using assms by linarith
  show ?thesis
    using assms
    by (simp add: RealizedVolatility_def RealizedVolatility_loop_eq n lastWindow_def Let_def
        max_def power2_eq_square not_less mult.assoc spec_realizedVol_def)
qed

lemma RealizedVolatility_nonneg: "RealizedVolatility rs W bpy = Finite v \<Longrightarrow> 0 \<le> v"
  by (auto simp: RealizedVolatility_def go_sqrt_def Let_def split: if_splits prod.splits)

lemma go_sqrt_finite: "0 \<le> x \<Longrightarrow> 0 \<le> b \<Longrightarrow> go_sqrt (x * b) = Finite (sqrt (x * b))"
  by (simp add: go_sqrt_def not_less)

lemma RealizedVolatility_finite:
  "0 \<le> bpy \<Longrightarrow> \<exists>v. RealizedVolatility rs W bpy = Finite v"
  unfolding RealizedVolatility_def Let_def
  by (auto simp only: go_sqrt_finite not_less order_refl split: prod.splits if_splits)

lemma RealizedVolatility_example:
  "\<exists>v. RealizedVolatility [1/100, -1/100, 1/100, -1/100] 4 525600 = Finite v
       \<and> 837/100 < v \<and> v < 838/100"
proof -
  have "RealizedVolatility [1/100, -1/100, 1/100, -1/100] 4 525600 = Finite (sqrt (7008 / 100))"
    by (simp add: RealizedVolatility_formula spec_realizedVol_def lastWindow_def go_sqrt_def
        power_divide)
  moreover have "837/100 < sqrt (7008 / 100 :: real)"
    by (rule real_less_rsqrt) (simp add: power_divide)
  moreover have "sqrt (7008 / 100 :: real) < 838/100"
    by (rule real_less_lsqrt) (simp_all add: power_divide)
  ultimately show ?thesis by blast
qed

text \<open>
  C9. With \<open>1 < W \<le> len returns\<close>, \<open>RealizedVolatility returns W barsPerYear\<close> is the
  specification's formula over the last \<open>W\<close> returns (with Go's square root, so NaN can only
  come from a negative \<open>barsPerYear\<close>); it is 0 whenever \<open>W \<le> 1\<close> or \<open>len returns < W\<close>, so
  the log returns of a single candle (the empty list) give 0 for every window; a finite
  result is never negative, and the result is finite whenever \<open>barsPerYear \<ge> 0\<close>; returns
  0.01, -0.01, 0.01, -0.01 with window 4 and 525600 bars per year give a value between 8.37
  and 8.38; \<open>BarsPerYearForTF\<close> maps 1s, 1m, 5m to 31536000, 525600, 105120.
\<close>

theorem C9_RealizedVolatility:
  "(1 < W \<and> W \<le> int (length returns) \<longrightarrow>
      RealizedVolatility returns W barsPerYear = spec_realizedVol returns W barsPerYear)
   \<and> (W \<le> 1 \<or> int (length returns) < W \<longrightarrow> RealizedVolatility returns W barsPerYear = Finite 0)
   \<and> ComputeLogReturns [c] = [] \<and> RealizedVolatility (ComputeLogReturns [c]) W barsPerYear = Finite 0
   \<and> (\<forall>v. RealizedVolatility returns W barsPerYear = Finite v \<longrightarrow> 0 \<le> v)
   \<and> (0 \<le> barsPerYear \<longrightarrow> (\<exists>v. RealizedVolatility returns W barsPerYear = Finite v))
   \<and> (\<exists>v. RealizedVolatility [1/100, -1/100, 1/100, -1/100] 4 525600 = Finite v
           \<and> 837/100 < v \<and> v < 838/100)
   \<and> BarsPerYearForTF ''1s'' = 31536000 \<and> BarsPerYearForTF ''1m'' = 525600
   \<and> BarsPerYearForTF ''5m'' = 105120"
proof (intro conjI)
  show "1 < W \<and> W \<le> int (length returns) \<longrightarrow>
      RealizedVolatility returns W barsPerYear = spec_realizedVol returns W barsPerYear"
    by (simp add: RealizedVolatility_formula)
  show "W \<le> 1 \<or> int (length returns) < W \<longrightarrow> RealizedVolatility returns W barsPerYear = Finite 0"
    by (auto simp: RealizedVolatility_def)
  show "ComputeLogReturns [c] = []"
    by (simp add: ComputeLogReturns_def)
  show "RealizedVolatility (ComputeLogReturns [c]) W barsPerYear = Finite 0"
    by (auto simp: ComputeLogReturns_def RealizedVolatility_def)
  show "\<forall>v. RealizedVolatility returns W barsPerYear = Finite v \<longrightarrow> 0 \<le> v"
    using RealizedVolatility_nonneg by blast
  show "0 \<le> barsPerYear \<longrightarrow> (\<exists>v. RealizedVolatility returns W barsPerYear = Finite v)"
    using RealizedVolatility_finite by blast
  show "\<exists>v. RealizedVolatility [1/100, -1/100, 1/100, -1/100] 4 525600 = Finite v
           \<and> 837/100 < v \<and> v < 838/100"
    by (rule RealizedVolatility_example)
qed (simp_all add: BarsPerYearForTF_def)

theorem C9_RealizedVolatility_witness:
  "RealizedVolatility [3, 5] 2 4 = spec_realizedVol [3, 5] 2 4
   \<and> spec_realizedVol [3, 5] 2 4 = Finite (sqrt 8)
   \<and> RealizedVolatility [3, 5] 3 4 = Finite 0
   \<and> (\<exists>v. RealizedVolatility [3, 5] 2 4 = Finite v \<and> 0 \<le> v)"
proof -
  have a: "RealizedVolatility [3, 5] 2 4 = spec_realizedVol [3, 5] 2 4"
    using C9_RealizedVolatility [of 2 "[3, 5]" 4] by simp
  have b: "spec_realizedVol [3, 5] 2 4 = Finite (sqrt 8)"
    by (simp add: spec_realizedVol_def lastWindow_def go_sqrt_def power_divide)
  have c: "RealizedVolatility [3, 5] 3 4 = Finite 0"
    using C9_RealizedVolatility [of 3 "[3, 5]" 4] by simp
  have d: "\<exists>v. RealizedVolatility [3, 5] 2 4 = Finite v \<and> 0 \<le> v"
    using a b by simp
  from a b c d show ?thesis by blast
qed

subsection \<open>Rate limiter\<close>

lemma refill_unfold:
  "refill b now =
     (if 0 < Seconds (now - last' b)
      then b\<lparr>tokens := min (capacity b) (tokens b + Seconds (now - last' b) * refillRate b),
              last' := now\<rparr>
      else b)"
  by (simp add: refill_def Let_def min_def)

lemma bucket_ok_refill:
  assumes ok: "bucket_ok b"
  shows "bucket_ok (refill b now)"
proof (cases "0 < Seconds (now - last' b)")
  case False
  then show ?thesis using ok by (simp add: refill_unfold)
next
  case True
  show ?thesis
  proof (cases "refillRate b < 0")
    case neg: True
    then show ?thesis
      using True by (simp add: refill_unfold bucket_ok_def)
  next
    case pos: False
    then have "0 \<le> Seconds (now - last' b) * refillRate b"
      using True by simp
    then show ?thesis
      using ok True pos by (auto simp: refill_unfold bucket_ok_def min_def)
  qed
qed

lemma bucket_ok_Allow:
  assumes "\<forall>k b. m l k = Some b \<longrightarrow> bucket_ok b"
    and "m (snd (Allow l now key cap rate)) k = Some b"
  shows "bucket_ok b"
proof (cases "k = key")
  case False
  then have "m (snd (Allow l now key cap rate)) k = m l k"
    by (simp add: Allow_def Let_def split: option.splits)
  then show ?thesis using assms by simp
next
  case True
  define b0 where
    "b0 = (case m l key of Some b \<Rightarrow> b
           | None \<Rightarrow> \<lparr>tokens = cap, capacity = cap, refillRate = rate, last' = now\<rparr>)"
  have ok0: "bucket_ok b0"
    using assms(1) by (auto simp: b0_def bucket_ok_def split: option.splits)
  have ok1: "bucket_ok (refill b0 now)"
    using ok0 by (rule bucket_ok_refill)
  have "b = (if 1 \<le> tokens (refill b0 now)
             then (refill b0 now)\<lparr>tokens := tokens (refill b0 now) - 1\<rparr> else refill b0 now)"
    using assms(2) True by (auto simp: Allow_def Let_def b0_def split: option.splits if_splits)
  then show ?thesis
    using ok1 by (auto simp: bucket_ok_def min_def split: if_splits)
qed

lemma bucket_ok_AllowAll:
  "\<forall>k b. m l k = Some b \<longrightarrow> bucket_ok b \<Longrightarrow> m (AllowAll l calls) k = Some b \<Longrightarrow> bucket_ok b"
proof (induction calls arbitrary: l)
  case Nil
  then show ?case by simp
next
  case (Cons c calls)
  obtain now key cap rate where c: "c = (now, key, cap, rate)"
    by (cases c) auto
  have "\<forall>k b. m (snd (Allow l now key cap rate)) k = Some b \<longrightarrow> bucket_ok b"
    using bucket_ok_Allow [OF Cons.prems(1)] by blast
  then show ?case
    using Cons.IH [of "snd (Allow l now key cap rate)"] Cons.prems(2) by (simp add: c)
qed

lemma refill_full:
  assumes ok: "bucket_ok b" and R: "0 < refillRate b"
    and idle: "capacity b / refillRate b \<le> Seconds (now - last' b)"
  shows "tokens (refill b now) = capacity b"
proof -
  have cap: "capacity b \<le> Seconds (now - last' b) * refillRate b"
    using idle R by (simp add: pos_divide_le_eq)
  have lo: "min 0 (capacity b) \<le> tokens b" and hi: "tokens b \<le> capacity b"
    using ok R by (auto simp: bucket_ok_def)
  show ?thesis
  proof (cases "0 < Seconds (now - last' b)")
    case True
    have "0 < Seconds (now - last' b) * refillRate b" using True R by simp
    then have "capacity b \<le> tokens b + Seconds (now - last' b) * refillRate b"
      using cap lo by (auto simp: min_def split: if_splits)
    then show ?thesis using True by (simp add: refill_unfold min_def)
  next
    case False
    then have "Seconds (now - last' b) * refillRate b \<le> 0"
      using R by (simp add: mult_le_0_iff)
    then have "capacity b \<le> 0" using cap by linarith
    then have "tokens b = capacity b" using lo hi by (simp add: min_def)
    then show ?thesis using False by (simp add: refill_unfold)
  qed
qed

text \<open>
  C7. The limiter keeps one bucket per key. On the first observation of a key the bucket is
  created full (\<open>tokens = cap\<close>) with the given capacity and rate, and the call consumes from
  it. On a later call the stored bucket (with the capacity and rate stored at its creation)
  is refilled by \<open>elapsed * refillRate\<close> tokens, clamped to its capacity, when the elapsed
  time is positive. In both cases \<open>Allow\<close> returns true iff the bucket then holds at least 1
  token, and takes one away exactly when it returns true. With capacity 2 and rate 1/s, from
  an empty limiter two calls at the same instant return true, a third at that instant
  returns false, and a call one second later returns true. In every limiter reached from
  the empty one by any sequence of calls, a bucket of capacity \<open>C\<close> and rate \<open>R > 0\<close> that
  has been idle for at least \<open>C / R\<close> seconds is full after its refill.
\<close>

theorem C7_Allow:
  "(m l key = None \<longrightarrow>
      Allow l now key cap rate =
        (1 \<le> cap,
         l\<lparr>m := (m l)(key \<mapsto> \<lparr>tokens = (if 1 \<le> cap then cap - 1 else cap), capacity = cap,
                                refillRate = rate, last' = now\<rparr>)\<rparr>))
   \<and> (m l key = Some b \<longrightarrow>
      Allow l now key cap rate =
        (1 \<le> tokens (refill b now),
         l\<lparr>m := (m l)(key \<mapsto> (refill b now)
                   \<lparr>tokens := (if 1 \<le> tokens (refill b now) then tokens (refill b now) - 1
                                else tokens (refill b now))\<rparr>)\<rparr>))
   \<and> (0 < Seconds (now - last' b) \<longrightarrow>
      refill b now =
        b\<lparr>tokens := min (capacity b) (tokens b + Seconds (now - last' b) * refillRate b),
          last' := now\<rparr>)
   \<and> (Seconds (now - last' b) \<le> 0 \<longrightarrow> refill b now = b)
   \<and> fst (Allow New t ''k'' 2 1) = True
   \<and> fst (Allow (snd (Allow New t ''k'' 2 1)) t ''k'' 2 1) = True
   \<and> fst (Allow (snd (Allow (snd (Allow New t ''k'' 2 1)) t ''k'' 2 1)) t ''k'' 2 1) = False
   \<and> fst (Allow (snd (Allow (snd (Allow (snd (Allow New t ''k'' 2 1)) t ''k'' 2 1)) t ''k'' 2 1))
            (t + 1000000000) ''k'' 2 1) = True
   \<and> (m (AllowAll New calls) key' = Some b' \<and> 0 < refillRate b'
        \<and> capacity b' / refillRate b' \<le> Seconds (now' - last' b')
      \<longrightarrow> tokens (refill b' now') = capacity b')"
proof (intro conjI impI)
  assume "m l key = None"
  then show "Allow l now key cap rate =
        (1 \<le> cap,
         l\<lparr>m := (m l)(key \<mapsto> \<lparr>tokens = (if 1 \<le> cap then cap - 1 else cap), capacity = cap,
                                refillRate = rate, last' = now\<rparr>)\<rparr>)"
    by (simp add: Allow_def refill_unfold Seconds_def Let_def)
next
  assume "m l key = Some b"
  then show "Allow l now key cap rate =
        (1 \<le> tokens (refill b now),
         l\<lparr>m := (m l)(key \<mapsto> (refill b now)
                   \<lparr>tokens := (if 1 \<le> tokens (refill b now) then tokens (refill b now) - 1
                                else tokens (refill b now))\<rparr>)\<rparr>)"
    by (simp add: Allow_def Let_def)
next
  assume "0 < Seconds (now - last' b)"
  then show "refill b now =
        b\<lparr>tokens := min (capacity b) (tokens b + Seconds (now - last' b) * refillRate b),
          last' := now\<rparr>"
    by (simp add: refill_unfold)
next
  assume "Seconds (now - last' b) \<le> 0"
  then show "refill b now = b"
    by (simp add: refill_unfold)
next
  show "fst (Allow New t ''k'' 2 1) = True"
    by (simp add: Allow_def New_def refill_def Seconds_def Let_def)
  show "fst (Allow (snd (Allow New t ''k'' 2 1)) t ''k'' 2 1) = True"
    by (simp add: Allow_def New_def refill_def Seconds_def Let_def)
  show "fst (Allow (snd (Allow (snd (Allow New t ''k'' 2 1)) t ''k'' 2 1)) t ''k'' 2 1) = False"
    by (simp add: Allow_def New_def refill_def Seconds_def Let_def)
  show "fst (Allow (snd (Allow (snd (Allow (snd (Allow New t ''k'' 2 1)) t ''k'' 2 1)) t ''k'' 2 1))
            (t + 1000000000) ''k'' 2 1) = True"
    by (simp add: Allow_def New_def refill_def Seconds_def Let_def)
next
  assume a: "m (AllowAll New calls) key' = Some b' \<and> 0 < refillRate b'
        \<and> capacity b' / refillRate b' \<le> Seconds (now' - last' b')"
  have "\<forall>k b. m New k = Some b \<longrightarrow> bucket_ok b"
    by (simp add: New_def)
  then have "bucket_ok b'"
    using a bucket_ok_AllowAll by blast
  then show "tokens (refill b' now') = capacity b'"
    using a by (simp add: refill_full)
qed

theorem C7_Allow_witness:
  "m (AllowAll New [(0, ''k'', 5, 2), (0, ''k'', 5, 2), (1000000000, ''k'', 5, 2)]) ''k''
     = Some \<lparr>tokens = 4, capacity = 5, refillRate = 2, last' = 1000000000\<rparr>
   \<and> tokens (refill \<lparr>tokens = 4, capacity = 5, refillRate = 2, last' = 1000000000\<rparr> 3500000000) = 5
   \<and> Allow New 7 ''k'' (1/2) 1
       = (False, New\<lparr>m := (m New)(''k'' \<mapsto> \<lparr>tokens = 1/2, capacity = 1/2, refillRate = 1, last' = 7\<rparr>)\<rparr>)
   \<and> refill \<lparr>tokens = 0, capacity = 2, refillRate = 1, last' = 0\<rparr> 500000000
       = \<lparr>tokens = 1/2, capacity = 2, refillRate = 1, last' = 500000000\<rparr>
   \<and> refill \<lparr>tokens = 0, capacity = 2, refillRate = 1, last' = 5\<rparr> 5
       = \<lparr>tokens = 0, capacity = 2, refillRate = 1, last' = 5\<rparr>
   \<and> Allow \<lparr>m = [''k'' \<mapsto> \<lparr>tokens = 0, capacity = 2, refillRate = 1, last' = 5\<rparr>]\<rparr> 5 ''k'' 9 9
       = (False, \<lparr>m = [''k'' \<mapsto> \<lparr>tokens = 0, capacity = 2, refillRate = 1, last' = 5\<rparr>]\<rparr>)"
proof -
  let ?calls = "[(0::int, ''k'', 5::real, 2::real), (0, ''k'', 5, 2), (1000000000, ''k'', 5, 2)]"
  let ?b = "\<lparr>tokens = 4, capacity = 5, refillRate = 2, last' = 1000000000\<rparr>"
  let ?zb = "\<lparr>tokens = 0, capacity = 2, refillRate = 1, last' = 5\<rparr>"
  have s: "m (AllowAll New ?calls) ''k'' = Some ?b"
    by (simp add: Allow_def New_def refill_def Seconds_def Let_def)
  have "m (AllowAll New ?calls) ''k'' = Some ?b \<and> 0 < refillRate ?b
        \<and> capacity ?b / refillRate ?b \<le> Seconds (3500000000 - last' ?b)"
    using s by (simp add: Seconds_def)
  then have "tokens (refill ?b 3500000000) = capacity ?b"
    using C7_Allow [of New "''k''" 0 0 0 ?b 0 ?calls "''k''" ?b 3500000000] by blast
  then have f: "tokens (refill ?b 3500000000) = 5"
    by simp
  have n: "Allow New 7 ''k'' (1/2) 1
       = (False, New\<lparr>m := (m New)(''k'' \<mapsto> \<lparr>tokens = 1/2, capacity = 1/2, refillRate = 1, last' = 7\<rparr>)\<rparr>)"
    using C7_Allow [of New "''k''" 7 "1/2" 1 ?b 0 "[]" "''k''" ?b 0]
    by (simp add: New_def)
  have r: "refill \<lparr>tokens = 0, capacity = 2, refillRate = 1, last' = 0\<rparr> 500000000
       = \<lparr>tokens = 1/2, capacity = 2, refillRate = 1, last' = 500000000\<rparr>"
    using C7_Allow [of New "''k''" 500000000 0 0
        "\<lparr>tokens = 0, capacity = 2, refillRate = 1, last' = 0\<rparr>" 0 "[]" "''k''" ?b 0]
    by (simp add: Seconds_def)
  have z: "refill ?zb 5 = ?zb"
    using C7_Allow [of New "''k''" 5 0 0 ?zb 0 "[]" "''k''" ?b 0]
    by (simp add: Seconds_def)
  have e: "Allow \<lparr>m = [''k'' \<mapsto> ?zb]\<rparr> 5 ''k'' 9 9 = (False, \<lparr>m = [''k'' \<mapsto> ?zb]\<rparr>)"
    using C7_Allow [of "\<lparr>m = [''k'' \<mapsto> ?zb]\<rparr>" "''k''" 5 9 9 ?zb 0 "[]" "''k''" ?b 0] z
    by simp
  from s f n r z e show ?thesis by simp
qed

subsection \<open>Backoff with jitter\<close>

lemma wrap64_id:
  "0 \<le> x \<Longrightarrow> x < 9223372036854775808 \<Longrightarrow> wrap64 x = x"
  by (simp add: wrap64_def mod_pos_pos_trivial)

lemma go_div_2_nonneg: "0 \<le> x \<Longrightarrow> go_div x 2 = x div 2"
  by (cases "x = 0") (simp_all add: go_div_def)

text \<open>Where nothing overflows and the exponential is at least 2 ns, \<open>backoffWithJitter\<close>
  does what its comments say: the clamped exponential minus a jitter below its half.\<close>

lemma backoffWithJitter_in_range:
  assumes mn: "2 \<le> mn" and mx: "mn \<le> mx" "mx < 2 ^ 63"
    and at: "1 \<le> attempt" and no: "mn * 2 ^ nat (attempt - 1) < 2 ^ 63"
  shows "backoffWithJitter mn mx attempt v =
           Returned (min (mn * 2 ^ nat (attempt - 1)) mx
                     - v mod (min (mn * 2 ^ nat (attempt - 1)) mx div 2))"
    and "min (mn * 2 ^ nat (attempt - 1)) mx
           - v mod (min (mn * 2 ^ nat (attempt - 1)) mx div 2) \<le> mx"
    and "mn < 2 * (min (mn * 2 ^ nat (attempt - 1)) mx
           - v mod (min (mn * 2 ^ nat (attempt - 1)) mx div 2))"
proof -
  define P :: int where "P = 2 ^ nat (attempt - 1)"
  define E where "E = min (mn * P) mx"
  define J where "J = v mod (E div 2)"
  have p1: "1 \<le> P" by (simp add: P_def)
  have pm: "P \<le> mn * P" using mult_right_mono [of 1 mn P] mn p1 by simp
  have no': "mn * P < 9223372036854775808" using no by (simp add: P_def)
  have mx': "mx < 9223372036854775808" using mx by simp
  have p63: "P < 9223372036854775808" using pm no' by linarith
  have mp: "mn \<le> mn * P" using mult_left_mono [of 1 P mn] mn p1 by simp
  have e_lo: "mn \<le> E" using mp mx by (simp add: E_def)
  have e_hi: "E \<le> mx" by (simp add: E_def)
  have lt64: "attempt - 1 < 64"
  proof (rule ccontr)
    assume "\<not> attempt - 1 < 64"
    then have "63 \<le> nat (attempt - 1)" by simp
    then have "(2::int) ^ 63 \<le> 2 ^ nat (attempt - 1)" by (intro power_increasing) simp_all
    then show False using p63 by (simp add: P_def)
  qed
  have w1: "wrap64 (attempt - 1) = attempt - 1"
    using at lt64 by (intro wrap64_id) simp_all
  have u1: "uint64 (attempt - 1) = attempt - 1"
    using at lt64 by (simp add: uint64_def mod_pos_pos_trivial)
  have wp: "wrap64 P = P"
    using p1 p63 by (intro wrap64_id) linarith+
  have sh: "shl64 1 (attempt - 1) = P"
    using lt64 wp by (simp add: shl64_def P_def)
  have ex: "wrap64 (mn * P) = mn * P"
    using mp mn no' by (intro wrap64_id) linarith+
  have half: "0 < E div 2" using e_lo mn by presburger
  have j: "0 \<le> J" "J < E div 2"
    using half by (simp_all add: J_def)
  have res_hi: "E - J \<le> mx" using j e_hi by linarith
  have res_lo: "mn < 2 * (E - J)" using j e_lo by presburger
  have res_w: "wrap64 (E - J) = E - J"
    using res_hi res_lo mx' mx(1) mn by (intro wrap64_id) arith+
  have gd: "go_div E 2 = E div 2"
    using e_lo mn by (intro go_div_2_nonneg) linarith
  have clamp: "(if mn * P > mx then mx else mn * P) = E"
    by (simp add: E_def min_def)
  have s1: "(if mn \<le> 0 then 50 * Millisecond else mn) = mn" using mn by simp
  have s2: "(if mx < mn then mn else mx) = mx" using mx by simp
  have body: "backoffWithJitter mn mx attempt v =
      (case Int63n v (go_div E 2) of
         Panicked r \<Rightarrow> Panicked r
       | Returned jitter \<Rightarrow> Returned (wrap64 (E - jitter)))"
    by (simp only: backoffWithJitter_def Let_def s1 s2 w1 u1 sh ex clamp)
  have rnd: "Int63n v (E div 2) = Returned J"
    using half by (simp add: Int63n_def J_def)
  have "backoffWithJitter mn mx attempt v = Returned (E - J)"
    by (simp only: body gd rnd call.case res_w)
  then show "backoffWithJitter mn mx attempt v =
           Returned (min (mn * 2 ^ nat (attempt - 1)) mx
                     - v mod (min (mn * 2 ^ nat (attempt - 1)) mx div 2))"
    by (simp only: J_def E_def P_def)
  show "min (mn * 2 ^ nat (attempt - 1)) mx
           - v mod (min (mn * 2 ^ nat (attempt - 1)) mx div 2) \<le> mx"
    using res_hi by (simp only: J_def E_def P_def)
  show "mn < 2 * (min (mn * 2 ^ nat (attempt - 1)) mx
           - v mod (min (mn * 2 ^ nat (attempt - 1)) mx div 2))"
    using res_lo by (simp only: J_def E_def P_def)
qed

text \<open>
  C6, at the inputs where the code departs from it. With the default range (50 ms, 2 s) the
  product \<open>min * 2^38\<close> of attempt 39 wraps around to a negative \<^verbatim>\<open>int64\<close>, the clamp does not
  apply, and \<^verbatim>\<open>rand.Int63n\<close> panics on a negative bound, whatever the generator draws; from
  attempt 58 on the product is 0 and so is the bound. With a minimum of 1 ns the bound
  \<open>exp / 2\<close> is 0 at the first attempt. With a minimum of \<open>2^62 + 1\<close> ns the product of
  attempt 3 wraps around to 4 ns, and the sleep is 4 ns or 3 ns, far below half the minimum.
\<close>

theorem C6_backoffWithJitter_overflow:
  "backoffWithJitter (50 * Millisecond) (2 * Second) 39 v = Panicked ''invalid argument to Int63n''
   \<and> backoffWithJitter (50 * Millisecond) (2 * Second) 58 v = Panicked ''invalid argument to Int63n''
   \<and> backoffWithJitter 1 1 1 v = Panicked ''invalid argument to Int63n''
   \<and> backoffWithJitter (2 ^ 62 + 1) (2 ^ 63 - 1) 3 0 = Returned 4
   \<and> backoffWithJitter (2 ^ 62 + 1) (2 ^ 63 - 1) 3 1 = Returned 3"
  by code_simp

subsection \<open>The retry loop as an iteration of its body\<close>

lemma attemptLoop_step:
  "attemptLoop c h e msg a0 =
     (case attemptStep c h e msg (a0 + 1) of
        (evs, Some x) \<Rightarrow> (evs, x)
      | (evs, None) \<Rightarrow>
          (evs @ fst (attemptLoop c h e msg (a0 + 1)), snd (attemptLoop c h e msg (a0 + 1))))"
proof (cases "BeforeHandle (hook c) (a0 + 1) Background (topic msg) (km msg) (data' msg)")
  case (Panicked r)
  then show ?thesis
    by (subst attemptLoop.simps) (simp add: attemptStep_def Let_def)
next
  case (Returned x)
  obtain hctx hmsg hdata berr where x: "x = (hctx, hmsg, hdata, berr)"
    by (cases x) auto
  note bh = Returned [unfolded x]
  show ?thesis
  proof (cases "berr \<noteq> None")
    case True
    then show ?thesis
      using bh by (subst attemptLoop.simps) (simp add: attemptStep_def Let_def)
  next
    case noberr: False
    show ?thesis
    proof (cases "Handle h (a0 + 1) hctx hdata")
      case (Panicked r)
      then show ?thesis
        using bh noberr by (subst attemptLoop.simps) (simp add: attemptStep_def Let_def)
    next
      case hd: (Returned err)
      show ?thesis
      proof (cases "AfterHandle (hook c) (a0 + 1) hctx (topic msg) hmsg hdata err")
        case (Panicked r)
        then show ?thesis
          using bh noberr hd by (subst attemptLoop.simps) (simp add: attemptStep_def Let_def)
      next
        case ah: (Returned u)
        show ?thesis
        proof (cases "err = None \<or> a0 + 1 > RetryMax (cfg c)")
          case True
          then show ?thesis
            using bh noberr hd ah
            by (subst attemptLoop.simps) (simp add: attemptStep_def Let_def)
        next
          case retry: False
          show ?thesis
          proof (cases "OnError (hook c) (a0 + 1) hctx (topic msg) hmsg hdata err")
            case (Panicked r)
            then show ?thesis
              using bh noberr hd ah retry
              by (subst attemptLoop.simps) (simp add: attemptStep_def Let_def)
          next
            case oe: (Returned u')
            show ?thesis
            proof (cases "backoffWithJitter (BackoffMin (cfg c)) (BackoffMax (cfg c)) (a0 + 1)
                            (draw e (a0 + 1))")
              case (Panicked r)
              then show ?thesis
                using bh noberr hd ah retry oe
                by (subst attemptLoop.simps) (simp add: attemptStep_def Let_def)
            next
              case bo: (Returned sleep)
              show ?thesis
                using bh noberr hd ah retry oe bo
                by (subst attemptLoop.simps)
                  (simp add: attemptStep_def Let_def split: prod.splits)
            qed
          qed
        qed
      qed
    qed
  qed
qed

lemma attemptStep_continue:
  "snd (attemptStep c h e msg a) = None \<Longrightarrow> a \<le> RetryMax (cfg c)"
  by (auto simp: attemptStep_def split: call.splits prod.splits if_splits)

lemma attemptStep_handlerCalls:
  "length (filter isHandle (fst (attemptStep c h e msg a))) \<le> 1"
  by (auto simp: attemptStep_def split: call.splits prod.splits if_splits)

lemma attemptStep_no_DLQ_commit:
  "filter isDLQ (fst (attemptStep c h e msg a)) = []"
  "filter isCommit (fst (attemptStep c h e msg a)) = []"
  by (auto simp: attemptStep_def split: call.splits prod.splits if_splits)

lemma attemptLoop_handlerCalls:
  "handlerCalls (fst (attemptLoop c h e msg a)) \<le> max 1 (RetryMax (cfg c) - a + 1)"
proof (induction "nat (RetryMax (cfg c) - a)" arbitrary: a rule: less_induct)
  case less
  obtain evs x where st: "attemptStep c h e msg (a + 1) = (evs, x)"
    by (cases "attemptStep c h e msg (a + 1)")
  have one: "int (length (filter isHandle evs)) \<le> 1"
    using attemptStep_handlerCalls [of c h e msg "a + 1"] st by simp
  show ?case
  proof (cases x)
    case (Some ex)
    then have "fst (attemptLoop c h e msg a) = evs"
      using st by (simp add: attemptLoop_step [of c h e msg a])
    then show ?thesis
      using one by (simp add: handlerCalls_def max_def)
  next
    case None
    then have le: "a + 1 \<le> RetryMax (cfg c)"
      using attemptStep_continue [of c h e msg "a + 1"] st by simp
    then have "nat (RetryMax (cfg c) - (a + 1)) < nat (RetryMax (cfg c) - a)"
      by simp
    then have ih: "handlerCalls (fst (attemptLoop c h e msg (a + 1)))
                    \<le> max 1 (RetryMax (cfg c) - (a + 1) + 1)"
      by (rule less)
    have "fst (attemptLoop c h e msg a) = evs @ fst (attemptLoop c h e msg (a + 1))"
      using st None by (simp add: attemptLoop_step [of c h e msg a])
    then have "handlerCalls (fst (attemptLoop c h e msg a))
                 = int (length (filter isHandle evs))
                   + handlerCalls (fst (attemptLoop c h e msg (a + 1)))"
      by (simp add: handlerCalls_def)
    then show ?thesis
      using one ih le by (simp add: max_def split: if_splits)
  qed
qed

lemma attemptLoop_no_DLQ_commit:
  "filter isDLQ (fst (attemptLoop c h e msg a)) = []
   \<and> filter isCommit (fst (attemptLoop c h e msg a)) = []"
proof (induction "nat (RetryMax (cfg c) - a)" arbitrary: a rule: less_induct)
  case less
  obtain evs x where st: "attemptStep c h e msg (a + 1) = (evs, x)"
    by (cases "attemptStep c h e msg (a + 1)")
  have none: "filter isDLQ evs = []" "filter isCommit evs = []"
    using attemptStep_no_DLQ_commit [of c h e msg "a + 1"] st by simp_all
  show ?case
  proof (cases x)
    case (Some ex)
    then show ?thesis
      using st none by (simp add: attemptLoop_step [of c h e msg a])
  next
    case None
    then have "a + 1 \<le> RetryMax (cfg c)"
      using attemptStep_continue [of c h e msg "a + 1"] st by simp
    then have "nat (RetryMax (cfg c) - (a + 1)) < nat (RetryMax (cfg c) - a)"
      by simp
    then have "filter isDLQ (fst (attemptLoop c h e msg (a + 1))) = []
       \<and> filter isCommit (fst (attemptLoop c h e msg (a + 1))) = []"
      by (rule less)
    then show ?thesis
      using st none None by (simp add: attemptLoop_step [of c h e msg a])
  qed
qed

subsection \<open>Offset commit\<close>

lemma commit_backoff:
  assumes "1 \<le> a" "a \<le> 3"
  shows "\<exists>s. backoffWithJitter (50 * Millisecond) (500 * Millisecond) a v = Returned s"
proof -
  have "a = 1 \<or> a = 2 \<or> a = 3" using assms by arith
  then have "50 * Millisecond * 2 ^ nat (a - 1) < 2 ^ 63"
    by (auto simp: Millisecond_def)
  then show ?thesis
    using assms backoffWithJitter_in_range(1) [of "50 * Millisecond" "500 * Millisecond" a v]
    by (simp add: Millisecond_def)
qed

lemma commitLoop_props:
  assumes "1 \<le> attempt" "max' \<le> 3"
  shows "(\<forall>r. snd (commitLoop e k max' attempt err0) \<noteq> CommitPanic r)
         \<and> filter isHandle (fst (commitLoop e k max' attempt err0)) = []
         \<and> filter isDLQ (fst (commitLoop e k max' attempt err0)) = []
         \<and> (attempt \<le> max' \<longrightarrow>
              (\<exists>rest. fst (commitLoop e k max' attempt err0)
                        = EvCommit k attempt (commitMessages e attempt) # rest))"
  using assms
proof (induction "nat (max' + 1 - attempt)" arbitrary: attempt err0 rule: less_induct)
  case less
  show ?case
  proof (cases "attempt \<le> max'")
    case False
    then show ?thesis
      by (subst (1 2 3) commitLoop.simps) simp
  next
    case True
    obtain s where bo: "backoffWithJitter (50 * Millisecond) (500 * Millisecond) attempt
                          (commitDraw e attempt) = Returned s"
      using commit_backoff [of attempt] True less.prems by force
    show ?thesis
    proof (cases "commitMessages e attempt = None")
      case ok: True
      then show ?thesis
        using True by (subst (1 2 3 4) commitLoop.simps) (simp add: Let_def)
    next
      case err: False
      have "nat (max' + 1 - (attempt + 1)) < nat (max' + 1 - attempt)"
        using True by simp
      moreover have "1 \<le> attempt + 1" using less.prems by simp
      ultimately have ih:
        "(\<forall>r. snd (commitLoop e k max' (attempt + 1) (commitMessages e attempt)) \<noteq> CommitPanic r)
         \<and> filter isHandle (fst (commitLoop e k max' (attempt + 1) (commitMessages e attempt))) = []
         \<and> filter isDLQ (fst (commitLoop e k max' (attempt + 1) (commitMessages e attempt))) = []"
        using less.hyps [of "attempt + 1" "commitMessages e attempt"] less.prems(2) by blast
      show ?thesis
        using True err bo ih
        by (subst (1 2 3 4) commitLoop.simps) (auto simp add: Let_def split: prod.splits)
    qed
  qed
qed

lemma commitWithRetry_props:
  "(\<forall>r. snd (commitWithRetry e k 3) \<noteq> CommitPanic r)
   \<and> filter isHandle (fst (commitWithRetry e k 3)) = []
   \<and> filter isDLQ (fst (commitWithRetry e k 3)) = []
   \<and> (\<exists>rest. fst (commitWithRetry e k 3) = EvCommit k 1 (commitMessages e 1) # rest)"
  using commitLoop_props [of 1 3 e k None] by (simp add: commitWithRetry_def)

subsection \<open>A handler that fails on every attempt\<close>

lemma attemptStep_fail_last:
  assumes "BeforeHandle (hook c) a Background (topic msg) (km msg) (data' msg)
             = Returned (hctx, hmsg, hdata, None)"
    and "Handle h a hctx hdata = Returned (Some er)"
    and "AfterHandle (hook c) a hctx (topic msg) hmsg hdata (Some er) = Returned ()"
    and "a > RetryMax (cfg c)"
  shows "attemptStep c h e msg a =
           ([EvBeforeHandle a, EvHandle a hctx hdata, EvAfterHandle a (Some er)],
            Some (Break (Some er) a))"
  using assms by (simp add: attemptStep_def)

lemma attemptStep_fail_retry:
  assumes "BeforeHandle (hook c) a Background (topic msg) (km msg) (data' msg)
             = Returned (hctx, hmsg, hdata, None)"
    and "Handle h a hctx hdata = Returned (Some er)"
    and "AfterHandle (hook c) a hctx (topic msg) hmsg hdata (Some er) = Returned ()"
    and "OnError (hook c) a hctx (topic msg) hmsg hdata (Some er) = Returned ()"
    and "backoffWithJitter (BackoffMin (cfg c)) (BackoffMax (cfg c)) a (draw e a) = Returned s"
    and "\<not> stopped e a"
    and "a \<le> RetryMax (cfg c)"
  shows "attemptStep c h e msg a =
           ([EvBeforeHandle a, EvHandle a hctx hdata, EvAfterHandle a (Some er),
             EvOnError a (Some er), EvSleep s], None)"
  using assms by (simp add: attemptStep_def)

lemma attemptLoop_exhaust:
  assumes hb: "\<forall>a. \<exists>hctx hmsg hdata.
                 BeforeHandle (hook c) a Background (topic msg) (km msg) (data' msg)
                   = Returned (hctx, hmsg, hdata, None)"
    and hh: "\<forall>a ctx d. \<exists>er. Handle h a ctx d = Returned (Some er)"
    and ha: "\<forall>a ctx t k d err. AfterHandle (hook c) a ctx t k d err = Returned ()"
    and ho: "\<forall>a ctx t k d err. OnError (hook c) a ctx t k d err = Returned ()"
    and hs: "\<forall>a. a0 < a \<and> a \<le> RetryMax (cfg c) \<longrightarrow> \<not> stopped e a"
    and hbo: "\<forall>a. a0 < a \<and> a \<le> RetryMax (cfg c) \<longrightarrow>
                (\<exists>s. backoffWithJitter (BackoffMin (cfg c)) (BackoffMax (cfg c)) a (draw e a)
                       = Returned s)"
  shows "\<exists>evs er. attemptLoop c h e msg a0
                     = (evs, Break (Some er) (max (a0 + 1) (RetryMax (cfg c) + 1)))
                   \<and> handlerCalls evs = max 1 (RetryMax (cfg c) - a0 + 1)"
  using hbo hs
proof (induction "nat (RetryMax (cfg c) - a0)" arbitrary: a0 rule: less_induct)
  case less
  let ?a = "a0 + 1"
  obtain hctx hmsg hdata where
    bh: "BeforeHandle (hook c) ?a Background (topic msg) (km msg) (data' msg)
           = Returned (hctx, hmsg, hdata, None)"
    using hb by blast
  obtain er where hd: "Handle h ?a hctx hdata = Returned (Some er)"
    using hh by blast
  have ah: "AfterHandle (hook c) ?a hctx (topic msg) hmsg hdata (Some er) = Returned ()"
    using ha by blast
  show ?case
  proof (cases "?a > RetryMax (cfg c)")
    case True
    have "attemptLoop c h e msg a0 =
            ([EvBeforeHandle ?a, EvHandle ?a hctx hdata, EvAfterHandle ?a (Some er)],
             Break (Some er) ?a)"
      by (simp add: attemptLoop_step [of c h e msg a0] attemptStep_fail_last [OF bh hd ah True])
    moreover have "max ?a (RetryMax (cfg c) + 1) = ?a" using True by simp
    moreover have "max 1 (RetryMax (cfg c) - a0 + 1) = 1" using True by simp
    ultimately show ?thesis by (simp add: handlerCalls_def)
  next
    case False
    then have le: "?a \<le> RetryMax (cfg c)" by simp
    have oe: "OnError (hook c) ?a hctx (topic msg) hmsg hdata (Some er) = Returned ()"
      using ho by blast
    obtain s where bo: "backoffWithJitter (BackoffMin (cfg c)) (BackoffMax (cfg c)) ?a
                         (draw e ?a) = Returned s"
      using less.prems(1) le by force
    have ns: "\<not> stopped e ?a" using less.prems(2) le by force
    have step: "attemptStep c h e msg ?a =
           ([EvBeforeHandle ?a, EvHandle ?a hctx hdata, EvAfterHandle ?a (Some er),
             EvOnError ?a (Some er), EvSleep s], None)"
      by (rule attemptStep_fail_retry [OF bh hd ah oe bo ns le])
    have "nat (RetryMax (cfg c) - ?a) < nat (RetryMax (cfg c) - a0)"
      using le by simp
    moreover have "\<forall>a. ?a < a \<and> a \<le> RetryMax (cfg c) \<longrightarrow>
                (\<exists>s. backoffWithJitter (BackoffMin (cfg c)) (BackoffMax (cfg c)) a (draw e a)
                       = Returned s)"
      using less.prems(1) by simp
    moreover have "\<forall>a. ?a < a \<and> a \<le> RetryMax (cfg c) \<longrightarrow> \<not> stopped e a"
      using less.prems(2) by simp
    ultimately obtain evs er' where
      ih: "attemptLoop c h e msg ?a
             = (evs, Break (Some er') (max (?a + 1) (RetryMax (cfg c) + 1)))"
      and ihc: "handlerCalls evs = max 1 (RetryMax (cfg c) - ?a + 1)"
      using less.hyps [of ?a] by blast
    have "attemptLoop c h e msg a0 =
            ([EvBeforeHandle ?a, EvHandle ?a hctx hdata, EvAfterHandle ?a (Some er),
              EvOnError ?a (Some er), EvSleep s] @ evs,
             Break (Some er') (max (?a + 1) (RetryMax (cfg c) + 1)))"
      by (simp add: attemptLoop_step [of c h e msg a0] step ih)
    moreover have "max (?a + 1) (RetryMax (cfg c) + 1) = max ?a (RetryMax (cfg c) + 1)"
      using le by simp
    moreover have "handlerCalls ([EvBeforeHandle ?a, EvHandle ?a hctx hdata,
              EvAfterHandle ?a (Some er), EvOnError ?a (Some er), EvSleep s] @ evs)
            = max 1 (RetryMax (cfg c) - a0 + 1)"
      using ihc le by (simp add: handlerCalls_def)
    ultimately show ?thesis by metis
  qed
qed

lemma backoff_first_two:
  assumes "2 \<le> mn" "mn \<le> mx" "mx < 2 ^ 62" "a = 1 \<or> a = 2"
  shows "\<exists>s. backoffWithJitter mn mx a v = Returned s"
proof -
  have "mn * 2 ^ nat (a - 1) < 2 ^ 63" using assms by auto
  moreover have "mx < 2 ^ 63" using assms by simp
  moreover have "1 \<le> a" using assms by auto
  ultimately show ?thesis
    using assms backoffWithJitter_in_range(1) [of mn mx a v] by blast
qed

lemma errorPath_events:
  "filter isHandle (fst (errorPath c h e msg err n)) = []
   \<and> filter isCommit (fst (errorPath c h e msg err n)) = []"
  by (auto simp: errorPath_def split: call.splits)

lemma messageWorker_exhaust:
  assumes hb: "\<forall>a. \<exists>hctx hmsg hdata.
                 BeforeHandle (hook c) a Background (topic msg) (km msg) (data' msg)
                   = Returned (hctx, hmsg, hdata, None)"
    and hh: "\<forall>a ctx d. \<exists>er. Handle h a ctx d = Returned (Some er)"
    and ha: "\<forall>a ctx t k d err. AfterHandle (hook c) a ctx t k d err = Returned ()"
    and ho: "\<forall>a ctx t k d err. OnError (hook c) a ctx t k d err = Returned ()"
    and hs: "\<forall>a. 0 < a \<and> a \<le> RetryMax (cfg c) \<longrightarrow> \<not> stopped e a"
    and hbo: "\<forall>a. 0 < a \<and> a \<le> RetryMax (cfg c) \<longrightarrow>
                (\<exists>s. backoffWithJitter (BackoffMin (cfg c)) (BackoffMax (cfg c)) a (draw e a)
                       = Returned s)"
    and reg: "handlers c (topic msg) = Some h"
    and dq: "dlq c" "DLQTopic (cfg c) \<noteq> ''''"
    and rd: "readers c (topic msg)"
  shows "\<exists>pre rest.
           fst (messageWorker c e msg)
             = pre @ EvDLQ (dlqMessage c h e msg) (dlqWrite e (dlqMessage c h e msg))
                 # EvCommit (km msg) 1 (commitMessages e 1) # rest
           \<and> handlerCalls pre = max 1 (RetryMax (cfg c) + 1)
           \<and> filter isDLQ pre = [] \<and> filter isHandle rest = [] \<and> filter isDLQ rest = []"
    and "snd (messageWorker c e msg) = Done"
proof -
  obtain evs er where
    lp: "attemptLoop c h e msg 0 = (evs, Break (Some er) (max 1 (RetryMax (cfg c) + 1)))"
    and calls: "handlerCalls evs = max 1 (RetryMax (cfg c) + 1)"
    using attemptLoop_exhaust [OF hb hh ha ho hs hbo] by auto
  let ?n = "max 1 (RetryMax (cfg c) + 1)"
  have nd: "filter isDLQ evs = []"
    using attemptLoop_no_DLQ_commit [of c h e msg 0] lp by simp
  have oe: "OnError (hook c) ?n Background (topic msg) (km msg) (data' msg) (Some er) = Returned ()"
    using ho by blast
  have ep: "errorPath c h e msg (Some er) ?n =
              ([EvOnError ?n (Some er),
                EvDLQ (dlqMessage c h e msg) (dlqWrite e (dlqMessage c h e msg))], None)"
    using dq oe by (simp add: errorPath_def)
  obtain rest where
    cm: "fst (commitWithRetry e (km msg) 3) = EvCommit (km msg) 1 (commitMessages e 1) # rest"
    and np: "\<forall>r. snd (commitWithRetry e (km msg) 3) \<noteq> CommitPanic r"
    and rh: "filter isHandle (fst (commitWithRetry e (km msg) 3)) = []"
    and rq: "filter isDLQ (fst (commitWithRetry e (km msg) 3)) = []"
    using commitWithRetry_props [of e "km msg"] by blast
  have mw: "messageWorker c e msg =
              (evs @ [EvOnError ?n (Some er),
                      EvDLQ (dlqMessage c h e msg) (dlqWrite e (dlqMessage c h e msg))]
                   @ fst (commitWithRetry e (km msg) 3), Done)"
    using reg dq rd np
    by (cases "commitWithRetry e (km msg) 3")
      (auto simp: messageWorker_def lp ep split: commit_exit.splits)
  show "snd (messageWorker c e msg) = Done"
    by (simp add: mw)
  have "fst (messageWorker c e msg)
          = (evs @ [EvOnError ?n (Some er)])
              @ EvDLQ (dlqMessage c h e msg) (dlqWrite e (dlqMessage c h e msg))
              # EvCommit (km msg) 1 (commitMessages e 1) # rest"
    by (simp add: mw cm)
  moreover have "handlerCalls (evs @ [EvOnError ?n (Some er)]) = max 1 (RetryMax (cfg c) + 1)"
    using calls by (simp add: handlerCalls_def)
  moreover have "filter isDLQ (evs @ [EvOnError ?n (Some er)]) = []"
    using nd by simp
  moreover have "filter isHandle rest = []" "filter isDLQ rest = []"
    using rh rq cm by simp_all
  ultimately show "\<exists>pre rest.
           fst (messageWorker c e msg)
             = pre @ EvDLQ (dlqMessage c h e msg) (dlqWrite e (dlqMessage c h e msg))
                 # EvCommit (km msg) 1 (commitMessages e 1) # rest
           \<and> handlerCalls pre = max 1 (RetryMax (cfg c) + 1)
           \<and> filter isDLQ pre = [] \<and> filter isHandle rest = [] \<and> filter isDLQ rest = []"
    by blast
qed

lemma messageWorker_handlerCalls:
  "handlerCalls (fst (messageWorker c e msg)) \<le> max 1 (RetryMax (cfg c) + 1)"
proof (cases "handlers c (topic msg)")
  case None
  then show ?thesis by (simp add: messageWorker_def handlerCalls_def)
next
  case (Some h)
  obtain evs ex where lp: "attemptLoop c h e msg 0 = (evs, ex)"
    by (cases "attemptLoop c h e msg 0")
  have b: "handlerCalls evs \<le> max 1 (RetryMax (cfg c) + 1)"
    using attemptLoop_handlerCalls [of c h e msg 0] lp by simp
  have c3: "filter isHandle (fst (commitWithRetry e (km msg) 3)) = []"
    using commitWithRetry_props [of e "km msg"] by blast
  show ?thesis
  proof (cases ex)
    case (Break err n)
    have ep: "filter isHandle (fst (errorPath c h e msg err n)) = []"
      using errorPath_events by blast
    obtain evs2 p where e2: "errorPath c h e msg err n = (evs2, p)"
      by (cases "errorPath c h e msg err n")
    obtain evs3 cx where e3: "commitWithRetry e (km msg) 3 = (evs3, cx)"
      by (cases "commitWithRetry e (km msg) 3")
    show ?thesis
      using Some lp Break b ep c3 e2 e3
      by (auto simp: messageWorker_def handlerCalls_def split: option.splits commit_exit.splits)
  next
    case Return
    then show ?thesis using Some lp b by (simp add: messageWorker_def)
  next
    case (LoopPanic r)
    then show ?thesis using Some lp b by (simp add: messageWorker_def)
  qed
qed

lemma messageWorker_no_commit:
  assumes "handlers c (topic msg) = Some h"
    and "\<forall>n. snd (attemptLoop c h e msg 0) \<noteq> Break None n"
    and "\<not> (dlq c \<and> DLQTopic (cfg c) \<noteq> '''')"
  shows "filter isCommit (fst (messageWorker c e msg)) = []"
proof -
  obtain evs ex where lp: "attemptLoop c h e msg 0 = (evs, ex)"
    by (cases "attemptLoop c h e msg 0")
  have nc: "filter isCommit evs = []"
    using attemptLoop_no_DLQ_commit [of c h e msg 0] lp by simp
  show ?thesis
  proof (cases ex)
    case (Break err n)
    then have "err \<noteq> None" using assms(2) lp by auto
    moreover obtain evs2 p where e2: "errorPath c h e msg err n = (evs2, p)"
      by (cases "errorPath c h e msg err n")
    moreover have "filter isCommit evs2 = []"
      using errorPath_events [of c h e msg err n] e2 by simp
    ultimately show ?thesis
      using assms(1,3) lp Break nc
      by (auto simp: messageWorker_def split: option.splits)
  next
    case Return
    then show ?thesis using assms(1) lp nc by (simp add: messageWorker_def)
  next
    case (LoopPanic r)
    then show ?thesis using assms(1) lp nc by (simp add: messageWorker_def)
  qed
qed

lemma RegisterHandler_topic:
  assumes "\<forall>t h. handlers c t = Some h \<longrightarrow> hTopic h = t"
    and "handlers (RegisterHandler c h') t = Some h"
  shows "hTopic h = t"
  using assms by (auto simp: RegisterHandler_def split: option.splits if_splits)

lemma attemptLoop_hook_error:
  assumes "BeforeHandle (hook c) (a0 + 1) Background (topic msg) (km msg) (data' msg)
             = Returned (hctx, hmsg, hdata, Some er)"
  shows "attemptLoop c h e msg a0 = ([EvBeforeHandle (a0 + 1)], Break (Some er) (a0 + 1))"
  using assms by (simp add: attemptLoop_step [of c h e msg a0] attemptStep_def)

text \<open>
  The worker where the backoff returns. (1) For every message, whatever the hooks, the
  handler and the surroundings do, the worker calls the handler at most \<open>RetryMax + 1\<close>
  times when \<open>RetryMax\<close> is not negative. (2) With \<open>RetryMax = 2\<close>, a DLQ configured, a handler registered under the
  message's topic that returns an error on every call, hooks that neither fail nor panic, no
  stop signal during the two backoffs and a backoff range of at least 2 ns below \<open>2^62\<close> ns:
  the handler is called exactly 3 times; exactly one DLQ message is written, to the DLQ
  topic, with the original payload and the single header \<open>source_topic\<close> holding the
  message's topic; the first \<open>CommitMessages\<close> call for the message follows the DLQ write
  directly, whatever the DLQ write returned; and the worker ends normally. (3) Without a DLQ,
  a loop that did not end in success is followed by no commit call at all. (4) A handler
  found under a topic was registered with that topic.
\<close>

lemma messageWorker_retry_dlq:
  "(0 \<le> RetryMax (cfg c) \<longrightarrow>
      handlerCalls (fst (messageWorker c e msg)) \<le> RetryMax (cfg c) + 1)
   \<and> (RetryMax (cfg c) = 2 \<and> dlq c \<and> DLQTopic (cfg c) \<noteq> ''''
        \<and> handlers c (topic msg) = Some h \<and> hTopic h = topic msg \<and> readers c (topic msg)
        \<and> (\<forall>a. \<exists>hctx hmsg hdata.
               BeforeHandle (hook c) a Background (topic msg) (km msg) (data' msg)
                 = Returned (hctx, hmsg, hdata, None))
        \<and> (\<forall>a ctx t k d err. AfterHandle (hook c) a ctx t k d err = Returned ())
        \<and> (\<forall>a ctx t k d err. OnError (hook c) a ctx t k d err = Returned ())
        \<and> (\<forall>a ctx d. \<exists>er. Handle h a ctx d = Returned (Some er))
        \<and> \<not> stopped e 1 \<and> \<not> stopped e 2
        \<and> 2 \<le> BackoffMin (cfg c) \<and> BackoffMin (cfg c) \<le> BackoffMax (cfg c)
        \<and> BackoffMax (cfg c) < 2 ^ 62
      \<longrightarrow> handlerCalls (fst (messageWorker c e msg)) = 3
          \<and> filter isDLQ (fst (messageWorker c e msg))
              = [EvDLQ (dlqMessage c h e msg) (dlqWrite e (dlqMessage c h e msg))]
          \<and> Topic (dlqMessage c h e msg) = DLQTopic (cfg c)
          \<and> Value' (dlqMessage c h e msg) = data' msg
          \<and> Headers (dlqMessage c h e msg) = [(''source_topic'', topic msg)]
          \<and> (\<exists>pre rest. fst (messageWorker c e msg)
                = pre @ EvDLQ (dlqMessage c h e msg) (dlqWrite e (dlqMessage c h e msg))
                    # EvCommit (km msg) 1 (commitMessages e 1) # rest)
          \<and> snd (messageWorker c e msg) = Done)
   \<and> (handlers c (topic msg) = Some h \<and> \<not> (dlq c \<and> DLQTopic (cfg c) \<noteq> '''')
        \<and> (\<forall>n. snd (attemptLoop c h e msg 0) \<noteq> Break None n)
      \<longrightarrow> filter isCommit (fst (messageWorker c e msg)) = [])
   \<and> ((\<forall>t h. handlers c t = Some h \<longrightarrow> hTopic h = t)
        \<and> handlers (RegisterHandler c h') t' = Some h''
      \<longrightarrow> hTopic h'' = t')"
proof (intro conjI impI)
  assume "0 \<le> RetryMax (cfg c)"
  then show "handlerCalls (fst (messageWorker c e msg)) \<le> RetryMax (cfg c) + 1"
    using messageWorker_handlerCalls [of c e msg] by (simp add: max_def)
next
  assume a: "handlers c (topic msg) = Some h \<and> \<not> (dlq c \<and> DLQTopic (cfg c) \<noteq> '''')
        \<and> (\<forall>n. snd (attemptLoop c h e msg 0) \<noteq> Break None n)"
  then show "filter isCommit (fst (messageWorker c e msg)) = []"
    using messageWorker_no_commit [of c msg h e] by blast
next
  assume "(\<forall>t h. handlers c t = Some h \<longrightarrow> hTopic h = t)
        \<and> handlers (RegisterHandler c h') t' = Some h''"
  then show "hTopic h'' = t'"
    using RegisterHandler_topic by blast
next
  assume a: "RetryMax (cfg c) = 2 \<and> dlq c \<and> DLQTopic (cfg c) \<noteq> ''''
        \<and> handlers c (topic msg) = Some h \<and> hTopic h = topic msg \<and> readers c (topic msg)
        \<and> (\<forall>a. \<exists>hctx hmsg hdata.
               BeforeHandle (hook c) a Background (topic msg) (km msg) (data' msg)
                 = Returned (hctx, hmsg, hdata, None))
        \<and> (\<forall>a ctx t k d err. AfterHandle (hook c) a ctx t k d err = Returned ())
        \<and> (\<forall>a ctx t k d err. OnError (hook c) a ctx t k d err = Returned ())
        \<and> (\<forall>a ctx d. \<exists>er. Handle h a ctx d = Returned (Some er))
        \<and> \<not> stopped e 1 \<and> \<not> stopped e 2
        \<and> 2 \<le> BackoffMin (cfg c) \<and> BackoffMin (cfg c) \<le> BackoffMax (cfg c)
        \<and> BackoffMax (cfg c) < 2 ^ 62"
  have r2: "RetryMax (cfg c) = 2" using a by blast
  have hs: "\<forall>a. 0 < a \<and> a \<le> RetryMax (cfg c) \<longrightarrow> \<not> stopped e a"
  proof (intro allI impI)
    fix a :: int assume "0 < a \<and> a \<le> RetryMax (cfg c)"
    then have "a = 1 \<or> a = 2" using r2 by arith
    then show "\<not> stopped e a" using a by auto
  qed
  have hbo: "\<forall>a. 0 < a \<and> a \<le> RetryMax (cfg c) \<longrightarrow>
                (\<exists>s. backoffWithJitter (BackoffMin (cfg c)) (BackoffMax (cfg c)) a (draw e a)
                       = Returned s)"
  proof (intro allI impI)
    fix a :: int assume "0 < a \<and> a \<le> RetryMax (cfg c)"
    then have "a = 1 \<or> a = 2" using r2 by arith
    then show "\<exists>s. backoffWithJitter (BackoffMin (cfg c)) (BackoffMax (cfg c)) a (draw e a)
                       = Returned s"
      using a backoff_first_two [of "BackoffMin (cfg c)" "BackoffMax (cfg c)" a "draw e a"]
      by blast
  qed
  have hb: "\<forall>a. \<exists>hctx hmsg hdata.
               BeforeHandle (hook c) a Background (topic msg) (km msg) (data' msg)
                 = Returned (hctx, hmsg, hdata, None)"
    and ha: "\<forall>a ctx t k d err. AfterHandle (hook c) a ctx t k d err = Returned ()"
    and ho: "\<forall>a ctx t k d err. OnError (hook c) a ctx t k d err = Returned ()"
    and hh: "\<forall>a ctx d. \<exists>er. Handle h a ctx d = Returned (Some er)"
    and reg: "handlers c (topic msg) = Some h"
    and dq: "dlq c" "DLQTopic (cfg c) \<noteq> ''''"
    and rd: "readers c (topic msg)"
    using a by blast+
  note ex = messageWorker_exhaust [OF hb hh ha ho hs hbo reg dq rd]
  obtain pre rest where
    tr: "fst (messageWorker c e msg)
           = pre @ EvDLQ (dlqMessage c h e msg) (dlqWrite e (dlqMessage c h e msg))
               # EvCommit (km msg) 1 (commitMessages e 1) # rest"
    and calls: "handlerCalls pre = max 1 (RetryMax (cfg c) + 1)"
    and q1: "filter isDLQ pre = []" and h2: "filter isHandle rest = []"
    and q2: "filter isDLQ rest = []"
    using ex(1) by blast
  show "handlerCalls (fst (messageWorker c e msg)) = 3"
    using calls h2 r2 by (simp add: tr handlerCalls_def)
  show "filter isDLQ (fst (messageWorker c e msg))
              = [EvDLQ (dlqMessage c h e msg) (dlqWrite e (dlqMessage c h e msg))]"
    using q1 q2 by (simp add: tr)
  show "Topic (dlqMessage c h e msg) = DLQTopic (cfg c)"
    by (simp add: dlqMessage_def)
  show "Value' (dlqMessage c h e msg) = data' msg"
    by (simp add: dlqMessage_def)
  show "Headers (dlqMessage c h e msg) = [(''source_topic'', topic msg)]"
    using a by (simp add: dlqMessage_def)
  show "\<exists>pre rest. fst (messageWorker c e msg)
                = pre @ EvDLQ (dlqMessage c h e msg) (dlqWrite e (dlqMessage c h e msg))
                    # EvCommit (km msg) 1 (commitMessages e 1) # rest"
    using tr by blast
  show "snd (messageWorker c e msg) = Done"
    by (rule ex(2))
qed

lemma messageWorker_retry_dlq_example:
  "handlerCalls (fst (messageWorker exampleConsumer exampleEnv exampleMsg)) = 3
   \<and> filter isDLQ (fst (messageWorker exampleConsumer exampleEnv exampleMsg))
       = [EvDLQ \<lparr>Topic = ''ticks.dlq'', Partition = 0, Offset = 0, Key = [],
                  Value' = ''payload'', Headers = [(''source_topic'', ''ticks'')], Time = 0\<rparr>
            (Some (Error ''dlq down''))]
   \<and> snd (messageWorker exampleConsumer exampleEnv exampleMsg) = Done
   \<and> filter isCommit (fst (messageWorker noDlqConsumer exampleEnv exampleMsg)) = []
   \<and> hTopic failingHandler = ''ticks''"
proof -
  have hyp: "RetryMax (cfg exampleConsumer) = 2 \<and> dlq exampleConsumer
        \<and> DLQTopic (cfg exampleConsumer) \<noteq> ''''
        \<and> handlers exampleConsumer (topic exampleMsg) = Some failingHandler
        \<and> hTopic failingHandler = topic exampleMsg \<and> readers exampleConsumer (topic exampleMsg)
        \<and> (\<forall>a. \<exists>hctx hmsg hdata.
               BeforeHandle (hook exampleConsumer) a Background (topic exampleMsg)
                 (km exampleMsg) (data' exampleMsg) = Returned (hctx, hmsg, hdata, None))
        \<and> (\<forall>a ctx t k d err. AfterHandle (hook exampleConsumer) a ctx t k d err = Returned ())
        \<and> (\<forall>a ctx t k d err. OnError (hook exampleConsumer) a ctx t k d err = Returned ())
        \<and> (\<forall>a ctx d. \<exists>er. Handle failingHandler a ctx d = Returned (Some er))
        \<and> \<not> stopped exampleEnv 1 \<and> \<not> stopped exampleEnv 2
        \<and> 2 \<le> BackoffMin (cfg exampleConsumer)
        \<and> BackoffMin (cfg exampleConsumer) \<le> BackoffMax (cfg exampleConsumer)
        \<and> BackoffMax (cfg exampleConsumer) < 2 ^ 62"
    by (simp add: exampleConsumer_def Start_def RegisterHandler_def NewConsumer_def
        exampleCfg_def failingHandler_def exampleMsg_def exampleEnv_def NoopHook_def
        Millisecond_def Second_def)
  note th = messageWorker_retry_dlq [where c = exampleConsumer and e = exampleEnv
      and msg = exampleMsg and h = failingHandler and h' = failingHandler
      and t' = "''ticks''" and h'' = failingHandler]
  from th hyp have
    r1: "handlerCalls (fst (messageWorker exampleConsumer exampleEnv exampleMsg)) = 3"
    and r2: "filter isDLQ (fst (messageWorker exampleConsumer exampleEnv exampleMsg))
       = [EvDLQ (dlqMessage exampleConsumer failingHandler exampleEnv exampleMsg)
            (dlqWrite exampleEnv (dlqMessage exampleConsumer failingHandler exampleEnv exampleMsg))]"
    and r3: "snd (messageWorker exampleConsumer exampleEnv exampleMsg) = Done"
    by blast+
  have dm: "dlqMessage exampleConsumer failingHandler exampleEnv exampleMsg
      = \<lparr>Topic = ''ticks.dlq'', Partition = 0, Offset = 0, Key = [],
          Value' = ''payload'', Headers = [(''source_topic'', ''ticks'')], Time = 0\<rparr>"
    by (simp add: dlqMessage_def exampleConsumer_def Start_def RegisterHandler_def
        NewConsumer_def exampleCfg_def failingHandler_def exampleMsg_def exampleEnv_def)
  have hb: "\<forall>a. \<exists>hctx hmsg hdata.
               BeforeHandle (hook noDlqConsumer) a Background (topic exampleMsg)
                 (km exampleMsg) (data' exampleMsg) = Returned (hctx, hmsg, hdata, None)"
    and ha: "\<forall>a ctx t k d err. AfterHandle (hook noDlqConsumer) a ctx t k d err = Returned ()"
    and ho: "\<forall>a ctx t k d err. OnError (hook noDlqConsumer) a ctx t k d err = Returned ()"
    and hh: "\<forall>a ctx d. \<exists>er. Handle failingHandler a ctx d = Returned (Some er)"
    and hs: "\<forall>a. 0 < a \<and> a \<le> RetryMax (cfg noDlqConsumer) \<longrightarrow> \<not> stopped exampleEnv a"
    by (simp_all add: noDlqConsumer_def Start_def RegisterHandler_def NewConsumer_def
        exampleCfg_def failingHandler_def exampleMsg_def exampleEnv_def NoopHook_def)
  have hbo: "\<forall>a. 0 < a \<and> a \<le> RetryMax (cfg noDlqConsumer) \<longrightarrow>
                (\<exists>s. backoffWithJitter (BackoffMin (cfg noDlqConsumer))
                       (BackoffMax (cfg noDlqConsumer)) a (draw exampleEnv a) = Returned s)"
  proof (intro allI impI)
    fix a :: int assume "0 < a \<and> a \<le> RetryMax (cfg noDlqConsumer)"
    then have "a = 1 \<or> a = 2"
      by (simp add: noDlqConsumer_def Start_def RegisterHandler_def NewConsumer_def
          exampleCfg_def) arith
    then show "\<exists>s. backoffWithJitter (BackoffMin (cfg noDlqConsumer))
                       (BackoffMax (cfg noDlqConsumer)) a (draw exampleEnv a) = Returned s"
      using backoff_first_two [of "50 * Millisecond" "2 * Second" a "draw exampleEnv a"]
      by (simp add: noDlqConsumer_def Start_def RegisterHandler_def NewConsumer_def
          exampleCfg_def Millisecond_def Second_def)
  qed
  have "\<exists>evs er. attemptLoop noDlqConsumer failingHandler exampleEnv exampleMsg 0
          = (evs, Break (Some er) (max (0 + 1) (RetryMax (cfg noDlqConsumer) + 1)))"
    using attemptLoop_exhaust [OF hb hh ha ho hs hbo] by blast
  then have "\<forall>n. snd (attemptLoop noDlqConsumer failingHandler exampleEnv exampleMsg 0)
                \<noteq> Break None n"
    by auto
  moreover have "handlers noDlqConsumer (topic exampleMsg) = Some failingHandler
      \<and> \<not> (dlq noDlqConsumer \<and> DLQTopic (cfg noDlqConsumer) \<noteq> '''')"
    by (simp add: noDlqConsumer_def Start_def RegisterHandler_def NewConsumer_def
        exampleCfg_def failingHandler_def exampleMsg_def)
  ultimately have
    r4: "filter isCommit (fst (messageWorker noDlqConsumer exampleEnv exampleMsg)) = []"
    using messageWorker_retry_dlq [where c = noDlqConsumer and e = exampleEnv
      and msg = exampleMsg and h = failingHandler] by blast
  have r5: "hTopic failingHandler = ''ticks''"
    by (simp add: failingHandler_def)
  from r1 r2 r3 r4 r5 dm show ?thesis
    by (simp add: exampleEnv_def)
qed

subsection \<open>A hook error ends the retry loop\<close>

text \<open>
  C3, as the code has it. When \<open>BeforeHandle\<close> returns an error at an attempt, the handler
  is not called for that attempt and the retry loop ends there: no \<open>AfterHandle\<close>, no
  per-attempt \<open>OnError\<close>, no backoff and no further attempt, whatever \<open>RetryMax\<close> is. A hook
  error at the first attempt therefore reaches the error path after a single attempt: the
  final \<open>OnError\<close>, then, when a DLQ is configured, the DLQ write and the offset commit.
\<close>

theorem C3_hook_error_ends_retry:
  "(BeforeHandle (hook c) (a0 + 1) Background (topic msg) (km msg) (data' msg)
      = Returned (hctx, hmsg, hdata, Some er)
    \<longrightarrow> attemptLoop c h e msg a0 = ([EvBeforeHandle (a0 + 1)], Break (Some er) (a0 + 1)))
   \<and> (handlers c (topic msg) = Some h
       \<and> BeforeHandle (hook c) 1 Background (topic msg) (km msg) (data' msg)
           = Returned (hctx, hmsg, hdata, Some er)
       \<and> OnError (hook c) 1 Background (topic msg) (km msg) (data' msg) (Some er) = Returned ()
      \<longrightarrow> fst (messageWorker c e msg)
            = [EvBeforeHandle 1, EvOnError 1 (Some er)]
              @ (if dlq c \<and> DLQTopic (cfg c) \<noteq> ''''
                 then EvDLQ (dlqMessage c h e msg) (dlqWrite e (dlqMessage c h e msg))
                      # (if readers c (topic msg) then fst (commitWithRetry e (km msg) 3)
                         else [])
                 else [])
          \<and> snd (messageWorker c e msg) = Done)"
proof (intro conjI impI)
  assume "BeforeHandle (hook c) (a0 + 1) Background (topic msg) (km msg) (data' msg)
      = Returned (hctx, hmsg, hdata, Some er)"
  then show "attemptLoop c h e msg a0 = ([EvBeforeHandle (a0 + 1)], Break (Some er) (a0 + 1))"
    by (rule attemptLoop_hook_error)
next
  assume a: "handlers c (topic msg) = Some h
       \<and> BeforeHandle (hook c) 1 Background (topic msg) (km msg) (data' msg)
           = Returned (hctx, hmsg, hdata, Some er)
       \<and> OnError (hook c) 1 Background (topic msg) (km msg) (data' msg) (Some er) = Returned ()"
  then have "BeforeHandle (hook c) (0 + 1) Background (topic msg) (km msg) (data' msg)
           = Returned (hctx, hmsg, hdata, Some er)"
    by simp
  then have "attemptLoop c h e msg 0 = ([EvBeforeHandle (0 + 1)], Break (Some er) (0 + 1))"
    by (rule attemptLoop_hook_error)
  then have lp: "attemptLoop c h e msg 0 = ([EvBeforeHandle 1], Break (Some er) 1)"
    by simp
  obtain evs3 cx where cm: "commitWithRetry e (km msg) 3 = (evs3, cx)"
    by (cases "commitWithRetry e (km msg) 3")
  have np: "\<forall>r. cx \<noteq> CommitPanic r"
    using commitWithRetry_props [of e "km msg"] cm by simp
  have mw: "messageWorker c e msg
        = ([EvBeforeHandle 1, EvOnError 1 (Some er)]
              @ (if dlq c \<and> DLQTopic (cfg c) \<noteq> ''''
                 then EvDLQ (dlqMessage c h e msg) (dlqWrite e (dlqMessage c h e msg))
                      # (if readers c (topic msg) then fst (commitWithRetry e (km msg) 3)
                         else [])
                 else []), Done)"
    using a np
    by (cases cx) (auto simp: messageWorker_def lp errorPath_def cm)
  show "fst (messageWorker c e msg)
            = [EvBeforeHandle 1, EvOnError 1 (Some er)]
              @ (if dlq c \<and> DLQTopic (cfg c) \<noteq> ''''
                 then EvDLQ (dlqMessage c h e msg) (dlqWrite e (dlqMessage c h e msg))
                      # (if readers c (topic msg) then fst (commitWithRetry e (km msg) 3)
                         else [])
                 else [])"
    by (simp only: mw fst_conv)
  show "snd (messageWorker c e msg) = Done"
    by (simp only: mw snd_conv)
qed

lemma hookConsumer_facts:
  "handlers hookConsumer ''ticks'' = Some failingHandler"
  "hook hookConsumer = rejectingHook"
  "cfg hookConsumer = exampleCfg"
  "dlq hookConsumer"
  "readers hookConsumer ''ticks''"
  by (simp_all add: hookConsumer_def WithConsumerHook_def exampleConsumer_def Start_def
      RegisterHandler_def NewConsumer_def exampleCfg_def failingHandler_def)

lemma commitWithRetry_example:
  "commitWithRetry exampleEnv k 3 = ([EvCommit k 1 None], Committed)"
  by (simp add: commitWithRetry_def exampleEnv_def commitLoop.simps [of _ _ 3 1])

theorem C3_hook_error_ends_retry_witness:
  "attemptLoop hookConsumer failingHandler exampleEnv exampleMsg 1
     = ([EvBeforeHandle 2], Break (Some (HookError ''ERR_VALIDATION'' ''bad payload'')) 2)
   \<and> fst (messageWorker hookConsumer exampleEnv exampleMsg)
       = [EvBeforeHandle 1, EvOnError 1 (Some (HookError ''ERR_VALIDATION'' ''bad payload'')),
          EvDLQ (dlqMessage hookConsumer failingHandler exampleEnv exampleMsg)
            (Some (Error ''dlq down'')),
          EvCommit (km exampleMsg) 1 None]"
proof -
  have b: "\<And>a. BeforeHandle (hook hookConsumer) a Background (topic exampleMsg)
             (km exampleMsg) (data' exampleMsg)
           = Returned (Background, km exampleMsg, data' exampleMsg,
               Some (HookError ''ERR_VALIDATION'' ''bad payload''))"
    by (simp add: hookConsumer_facts rejectingHook_def)
  have o: "OnError (hook hookConsumer) 1 Background (topic exampleMsg) (km exampleMsg)
             (data' exampleMsg) (Some (HookError ''ERR_VALIDATION'' ''bad payload''))
           = Returned ()"
    by (simp add: hookConsumer_facts rejectingHook_def)
  have t: "topic exampleMsg = ''ticks''"
    by (simp add: exampleMsg_def)
  note th = C3_hook_error_ends_retry [where c = hookConsumer and h = failingHandler
      and e = exampleEnv and msg = exampleMsg and hctx = Background
      and hmsg = "km exampleMsg" and hdata = "data' exampleMsg"
      and er = "HookError ''ERR_VALIDATION'' ''bad payload''"]
  have "attemptLoop hookConsumer failingHandler exampleEnv exampleMsg 1
     = ([EvBeforeHandle (1 + 1)],
        Break (Some (HookError ''ERR_VALIDATION'' ''bad payload'')) (1 + 1))"
    using th [where ?a0.0 = 1] b [of "1 + 1"] by blast
  moreover have "fst (messageWorker hookConsumer exampleEnv exampleMsg)
       = [EvBeforeHandle 1, EvOnError 1 (Some (HookError ''ERR_VALIDATION'' ''bad payload''))]
         @ (if dlq hookConsumer \<and> DLQTopic (cfg hookConsumer) \<noteq> ''''
            then EvDLQ (dlqMessage hookConsumer failingHandler exampleEnv exampleMsg)
                   (dlqWrite exampleEnv
                     (dlqMessage hookConsumer failingHandler exampleEnv exampleMsg))
                 # (if readers hookConsumer (topic exampleMsg)
                    then fst (commitWithRetry exampleEnv (km exampleMsg) 3) else [])
            else [])"
    using th [where ?a0.0 = 0] b [of 1] o hookConsumer_facts(1) t by simp
  moreover have "dlqWrite exampleEnv
                     (dlqMessage hookConsumer failingHandler exampleEnv exampleMsg)
                   = Some (Error ''dlq down'')"
    by (simp add: exampleEnv_def)
  ultimately show ?thesis
    by (simp add: hookConsumer_facts t commitWithRetry_example exampleCfg_def)
qed

text \<open>
  The claim as stated fails: with \<open>RetryMax = 2\<close> and a hook that rejects the message, the
  worker makes one \<open>BeforeHandle\<close> call, not three, sleeps in no backoff, never calls the
  handler, and goes to the DLQ write and the commit after that single attempt.
\<close>

theorem C3_hook_error_counterexample:
  "RetryMax (cfg hookConsumer) = 2
   \<and> messageWorker hookConsumer exampleEnv exampleMsg
       = ([EvBeforeHandle 1, EvOnError 1 (Some (HookError ''ERR_VALIDATION'' ''bad payload'')),
           EvDLQ \<lparr>Topic = ''ticks.dlq'', Partition = 0, Offset = 0, Key = [],
                   Value' = ''payload'', Headers = [(''source_topic'', ''ticks'')], Time = 0\<rparr>
             (Some (Error ''dlq down'')),
           EvCommit (km exampleMsg) 1 None], Done)
   \<and> length (filter isBeforeHandle (fst (messageWorker hookConsumer exampleEnv exampleMsg))) = 1
   \<and> filter isSleep (fst (messageWorker hookConsumer exampleEnv exampleMsg)) = []
   \<and> handlerCalls (fst (messageWorker hookConsumer exampleEnv exampleMsg)) = 0"
proof -
  have t: "topic exampleMsg = ''ticks''" "data' exampleMsg = ''payload''"
    by (simp_all add: exampleMsg_def)
  have "BeforeHandle (hook hookConsumer) (0 + 1) Background (topic exampleMsg)
             (km exampleMsg) (data' exampleMsg)
           = Returned (Background, km exampleMsg, data' exampleMsg,
               Some (HookError ''ERR_VALIDATION'' ''bad payload''))"
    by (simp add: hookConsumer_facts rejectingHook_def)
  then have "attemptLoop hookConsumer failingHandler exampleEnv exampleMsg 0
     = ([EvBeforeHandle (0 + 1)],
        Break (Some (HookError ''ERR_VALIDATION'' ''bad payload'')) (0 + 1))"
    by (rule attemptLoop_hook_error)
  then have lp: "attemptLoop hookConsumer failingHandler exampleEnv exampleMsg 0
     = ([EvBeforeHandle 1], Break (Some (HookError ''ERR_VALIDATION'' ''bad payload'')) 1)"
    by simp
  have ht: "hTopic failingHandler = ''ticks''"
    by (simp add: failingHandler_def)
  have dw: "\<And>x. dlqWrite exampleEnv x = Some (Error ''dlq down'')" "dlqTime exampleEnv = 0"
    by (simp_all add: exampleEnv_def)
  have mw: "messageWorker hookConsumer exampleEnv exampleMsg
       = ([EvBeforeHandle 1, EvOnError 1 (Some (HookError ''ERR_VALIDATION'' ''bad payload'')),
           EvDLQ \<lparr>Topic = ''ticks.dlq'', Partition = 0, Offset = 0, Key = [],
                   Value' = ''payload'', Headers = [(''source_topic'', ''ticks'')], Time = 0\<rparr>
             (Some (Error ''dlq down'')),
           EvCommit (km exampleMsg) 1 None], Done)"
    using ht dw
    by (simp add: messageWorker_def t hookConsumer_facts lp errorPath_def rejectingHook_def
        dlqMessage_def commitWithRetry_example exampleCfg_def)
  show ?thesis
    by (simp add: mw handlerCalls_def hookConsumer_facts exampleCfg_def)
qed

subsection \<open>The hook chain\<close>












lemma beforeEvents_length: "length (beforeEvents i zs) = length zs"
  by (induction zs arbitrary: i) auto



subsection \<open>Realtime pipeline\<close>












lemma examplePipeline_eq:
  "examplePipeline =
     \<lparr>maxRPS = 50, bufSize = 2000, bufCh = [], lastSeen = Map.empty, transform = None,
      metrics = [], forwarded = []\<rparr>"
  by (simp add: examplePipeline_def NewRealtimePipeline_def)


subsection \<open>The background flusher\<close>

text \<open>
  C5, at the inputs where the code departs from it. A trade in the buffer whose downstream
  call fails six times in a row: the flusher doubles \<open>backoff\<close> before it sleeps, so the first
  sleep after a failure is 100 ms, not 50 ms, and it doubles whenever \<open>backoff\<close> is below 2 s,
  so from 1.6 s it goes to 3.2 s and stays there: the sleeps are 100, 200, 400, 800, 1600
  and 3200 ms. The rest of the claim holds on that run and on the run where the downstream
  rejects twice and then accepts: the trade is put back into the buffer after each failure
  and is handed to the downstream again, three times in all, and the buffer ends empty with
  \<open>backoff\<close> back at 50 ms.
\<close>

theorem C5_flusher_backoff:
  "fst (flusher [Some (Error ''down''), Some (Error ''down''), Some (Error ''down''),
                 Some (Error ''down''), Some (Error ''down''), Some (Error ''down'')]
          (50 * Millisecond) (examplePipeline\<lparr>bufCh := [exampleTrade]\<rparr>))
     = [100 * Millisecond, 200 * Millisecond, 400 * Millisecond, 800 * Millisecond,
        1600 * Millisecond, 3200 * Millisecond]
   \<and> 2 * Second < 3200 * Millisecond
   \<and> flusher [Some (Error ''down''), Some (Error ''down''), None]
          (50 * Millisecond) (examplePipeline\<lparr>bufCh := [exampleTrade]\<rparr>)
     = ([100 * Millisecond, 200 * Millisecond], 50 * Millisecond,
        examplePipeline\<lparr>bufCh := [],
          metrics := [RecordError ''pipeline_flush'', RecordError ''pipeline_flush''],
          forwarded := [exampleTrade, exampleTrade, exampleTrade]\<rparr>)"
  by (simp add: examplePipeline_eq enqueue_def recordMetric_def Millisecond_def Second_def)

subsection \<open>The worker when the backoff panics\<close>

lemma tinyBackoffConsumer_facts:
  "handlers tinyBackoffConsumer ''ticks'' = Some failingHandler"
  "hook tinyBackoffConsumer = NoopHook"
  "cfg tinyBackoffConsumer = exampleCfg\<lparr>BackoffMin := 1, BackoffMax := 1\<rparr>"
  "dlq tinyBackoffConsumer"
  "readers tinyBackoffConsumer ''ticks''"
  by (simp_all add: tinyBackoffConsumer_def Start_def RegisterHandler_def NewConsumer_def
      exampleCfg_def failingHandler_def)

lemma negRetryConsumer_facts:
  "handlers negRetryConsumer ''ticks'' = Some failingHandler"
  "hook negRetryConsumer = NoopHook"
  "cfg negRetryConsumer = exampleCfg\<lparr>RetryMax := - 1\<rparr>"
  "dlq negRetryConsumer"
  "readers negRetryConsumer ''ticks''"
  by (simp_all add: negRetryConsumer_def Start_def RegisterHandler_def NewConsumer_def
      exampleCfg_def failingHandler_def)

lemma backoffWithJitter_one_ns:
  "backoffWithJitter 1 1 1 v = Panicked ''invalid argument to Int63n''"
  by (simp add: backoffWithJitter_def Int63n_def wrap64_def shl64_def uint64_def go_div_def
      Let_def)

text \<open>
  C1, at the inputs where the code departs from it. With \<open>RetryMax = 2\<close>, a DLQ configured, a
  handler that fails on every call and a backoff range of one nanosecond
  (\<^verbatim>\<open>WithConsumerRetry(2, 1, 1)\<close>), whatever the surroundings do: after the first failed
  attempt \<^verbatim>\<open>backoffWithJitter(1, 1, 1)\<close> calls \<^verbatim>\<open>rand.Int63n(0)\<close>, which panics; the deferred
  \<^verbatim>\<open>recover\<close> ends the handling of the message there. The handler has been called once, not
  three times, no DLQ message is written and no offset is committed. With \<open>RetryMax = -1\<close>
  the handler is called once, which is more than \<open>RetryMax + 1 = 0\<close>.
\<close>

theorem C1_messageWorker_backoff_panic:
  "RetryMax (cfg tinyBackoffConsumer) = 2
   \<and> dlq tinyBackoffConsumer \<and> DLQTopic (cfg tinyBackoffConsumer) = ''ticks.dlq''
   \<and> BackoffMin (cfg tinyBackoffConsumer) = 1 \<and> BackoffMax (cfg tinyBackoffConsumer) = 1
   \<and> messageWorker tinyBackoffConsumer e exampleMsg
       = ([EvBeforeHandle 1, EvHandle 1 Background ''payload'',
           EvAfterHandle 1 (Some (Error ''store down'')),
           EvOnError 1 (Some (Error ''store down''))],
          Recovered ''invalid argument to Int63n'')
   \<and> handlerCalls (fst (messageWorker tinyBackoffConsumer e exampleMsg)) = 1
   \<and> filter isDLQ (fst (messageWorker tinyBackoffConsumer e exampleMsg)) = []
   \<and> filter isCommit (fst (messageWorker tinyBackoffConsumer e exampleMsg)) = []
   \<and> RetryMax (cfg negRetryConsumer) + 1 = 0
   \<and> handlerCalls (fst (messageWorker negRetryConsumer exampleEnv exampleMsg)) = 1"
proof -
  have t: "topic exampleMsg = ''ticks''" "data' exampleMsg = ''payload''"
    by (simp_all add: exampleMsg_def)
  have st: "attemptStep tinyBackoffConsumer failingHandler e exampleMsg 1
      = ([EvBeforeHandle 1, EvHandle 1 Background ''payload'',
          EvAfterHandle 1 (Some (Error ''store down'')),
          EvOnError 1 (Some (Error ''store down''))],
         Some (LoopPanic ''invalid argument to Int63n''))"
    by (simp add: attemptStep_def t tinyBackoffConsumer_facts NoopHook_def failingHandler_def
        exampleCfg_def backoffWithJitter_one_ns)
  have lp: "attemptLoop tinyBackoffConsumer failingHandler e exampleMsg 0
      = ([EvBeforeHandle 1, EvHandle 1 Background ''payload'',
          EvAfterHandle 1 (Some (Error ''store down'')),
          EvOnError 1 (Some (Error ''store down''))],
         LoopPanic ''invalid argument to Int63n'')"
    by (subst attemptLoop_step) (simp add: st)
  have mw: "messageWorker tinyBackoffConsumer e exampleMsg
       = ([EvBeforeHandle 1, EvHandle 1 Background ''payload'',
           EvAfterHandle 1 (Some (Error ''store down'')),
           EvOnError 1 (Some (Error ''store down''))],
          Recovered ''invalid argument to Int63n'')"
    by (simp add: messageWorker_def t tinyBackoffConsumer_facts lp)
  have st2: "attemptStep negRetryConsumer failingHandler exampleEnv exampleMsg 1
      = ([EvBeforeHandle 1, EvHandle 1 Background ''payload'',
          EvAfterHandle 1 (Some (Error ''store down''))],
         Some (Break (Some (Error ''store down'')) 1))"
    by (simp add: attemptStep_def t negRetryConsumer_facts NoopHook_def failingHandler_def
        exampleCfg_def)
  have lp2: "attemptLoop negRetryConsumer failingHandler exampleEnv exampleMsg 0
      = ([EvBeforeHandle 1, EvHandle 1 Background ''payload'',
          EvAfterHandle 1 (Some (Error ''store down''))],
         Break (Some (Error ''store down'')) 1)"
    by (subst attemptLoop_step) (simp add: st2)
  have mw2: "fst (messageWorker negRetryConsumer exampleEnv exampleMsg)
       = [EvBeforeHandle 1, EvHandle 1 Background ''payload'',
          EvAfterHandle 1 (Some (Error ''store down'')),
          EvOnError 1 (Some (Error ''store down'')),
          EvDLQ (dlqMessage negRetryConsumer failingHandler exampleEnv exampleMsg)
            (dlqWrite exampleEnv (dlqMessage negRetryConsumer failingHandler exampleEnv exampleMsg)),
          EvCommit (km exampleMsg) 1 None]"
    by (simp add: messageWorker_def t negRetryConsumer_facts lp2 errorPath_def NoopHook_def
        commitWithRetry_example exampleCfg_def)
  show ?thesis
    by (simp add: mw mw2 handlerCalls_def tinyBackoffConsumer_facts negRetryConsumer_facts
        exampleCfg_def)
qed

end
